theory Spec2Isabelle
  imports Complex_Main
begin

section \<open>Data model (db/schema.ts)\<close>

text \<open>
  Tables are lists of rows in insertion order. A timestamp is the number of
  milliseconds that \<^verbatim>\<open>new Date()\<close> would hold; every operation that reads the
  clock takes it as the argument \<open>now\<close>. Nullable columns are options. Columns
  that no operation modelled below reads or writes (file and connector
  fields of a source, the description of a project) are left out.
\<close>

type_synonym timestamp = nat

datatype source_type = File | Teamwork

datatype source_status = SourcePending | Syncing | Ready | SourceError

datatype run_status = Pending | Running | Completed | Failed | Cancelled

datatype output_format = Conversational | Qa | Json

record quality_filters =
  minLength :: int
  maxLength :: int

record processing_config =
  outputFormat :: output_format
  includeMetadata :: bool
  chunkSize :: int
  qualityFilters :: quality_filters

text \<open>
  The \<^verbatim>\<open>config\<close> column of a run is \<^verbatim>\<open>jsonb\<close> typed
  \<^verbatim>\<open>Record<string, any>\<close>: the code stores either a processing
  configuration object or the empty object \<^verbatim>\<open>{}\<close>.
\<close>

datatype run_config = EmptyObject | ConfigObject processing_config

record run_stats =
  totalRecords :: int
  processedRecords :: int
  piiDetected :: int
  piiMasked :: int

record dataset_stats =
  totalConversations :: int
  avgConversationLength :: rat
  uniqueSpeakers :: int

record project =
  p_id :: nat
  p_name :: string
  p_organizationId :: nat
  p_deletedAt :: "timestamp option"

record source =
  s_id :: nat
  s_name :: string
  s_type :: source_type
  s_status :: source_status
  s_projectId :: nat
  s_lastSyncAt :: "timestamp option"
  s_recordCount :: "int option"
  s_updatedAt :: timestamp

record processing_config_row =
  c_projectId :: nat
  c_config :: processing_config
  c_updatedAt :: timestamp

record processing_run =
  r_id :: nat
  r_projectId :: nat
  r_status :: run_status
  r_progress :: int
  r_startedAt :: "timestamp option"
  r_completedAt :: "timestamp option"
  r_error :: "string option"
  r_errorDetails :: "string option"
  r_config :: "run_config option"
  r_stats :: "run_stats option"
  r_createdAt :: timestamp
  r_updatedAt :: timestamp

record dataset =
  d_id :: nat
  d_runId :: nat
  d_name :: string
  d_format :: string
  d_filePath :: "string option"
  d_fileSize :: "int option"
  d_recordCount :: "int option"
  d_stats :: "dataset_stats option"
  d_createdAt :: timestamp
  d_updatedAt :: timestamp

text \<open>
  The database: the five tables the run lifecycle touches, and the two
  \<^verbatim>\<open>serial\<close> sequences that number new runs and datasets.
\<close>

record database =
  projects :: "project list"
  sources :: "source list"
  processingConfigs :: "processing_config_row list"
  processingRuns :: "processing_run list"
  datasets :: "dataset list"
  processingRuns_id_seq :: nat
  datasets_id_seq :: nat

section \<open>Errors (errors/index.ts)\<close>

text \<open>
  One constructor per error class thrown by the modelled services.
  \<open>NotFoundError\<close> carries the resource name, \<open>ValidationError\<close> its message
  and the \<^verbatim>\<open>code\<close> of its details object. The rejections of the
  database are \<open>UniqueViolation\<close> and \<open>ForeignKeyViolation\<close> (SQLSTATE 23505
  and 23503, with the name of the constraint) and \<open>NumericValueOutOfRange\<close>
  (SQLSTATE 22003), raised when a query compares an \<^verbatim>\<open>integer\<close> column
  with a parameter above \<open>int4_max\<close>. They are no \<^verbatim>\<open>AppError\<close>, so the
  error handler answers them with status 500 and code
  \<^verbatim>\<open>INTERNAL_ERROR\<close>. \<open>TypeError\<close> is the JavaScript error of reading a
  property of \<^verbatim>\<open>null\<close>.
\<close>

abbreviation int4_max :: nat where
  "int4_max \<equiv> 2147483647"

datatype error =
    NotFoundError string
  | ValidationError string string
  | BadRequestError string
  | ConflictError string string
  | UniqueViolation string
  | ForeignKeyViolation string
  | NumericValueOutOfRange
  | TypeError

fun statusCode :: "error \<Rightarrow> nat" where
  "statusCode (NotFoundError resource) = 404"
| "statusCode (ValidationError msg details) = 422"
| "statusCode (BadRequestError msg) = 400"
| "statusCode (ConflictError msg c) = 409"
| "statusCode (UniqueViolation constraint) = 500"
| "statusCode (ForeignKeyViolation constraint) = 500"
| "statusCode NumericValueOutOfRange = 500"
| "statusCode TypeError = 500"

fun errorCode :: "error \<Rightarrow> string" where
  "errorCode (NotFoundError resource) = ''NOT_FOUND''"
| "errorCode (ValidationError msg details) = ''VALIDATION_ERROR''"
| "errorCode (BadRequestError msg) = ''BAD_REQUEST''"
| "errorCode (ConflictError msg c) = c"
| "errorCode (UniqueViolation constraint) = ''INTERNAL_ERROR''"
| "errorCode (ForeignKeyViolation constraint) = ''INTERNAL_ERROR''"
| "errorCode NumericValueOutOfRange = ''INTERNAL_ERROR''"
| "errorCode TypeError = ''INTERNAL_ERROR''"

fun errorMessage :: "error \<Rightarrow> string" where
  "errorMessage (NotFoundError resource) = resource @ '' not found''"
| "errorMessage (ValidationError msg details) = msg"
| "errorMessage (BadRequestError msg) = msg"
| "errorMessage (ConflictError msg c) = msg"
| "errorMessage (UniqueViolation constraint) = constraint"
| "errorMessage (ForeignKeyViolation constraint) = constraint"
| "errorMessage NumericValueOutOfRange = ''value out of range for type integer''"
| "errorMessage TypeError = ''Cannot read properties of null''"

section \<open>Run queries and cancellation (run service)\<close>

text \<open>
  \<^verbatim>\<open>verifyRun\<close> loads the run with its project and throws the same
  \<^verbatim>\<open>NotFoundError('Processing run')\<close> when the run is missing and when its
  project belongs to another organization. The run id reaches the query as
  the routes parsed it (\<^verbatim>\<open>parseIntParam\<close> accepts every positive integer),
  and \<^verbatim>\<open>processing_runs.id\<close> is an \<^verbatim>\<open>integer\<close> column: for an id above
  \<open>int4_max\<close> the query itself fails.
\<close>

definition verifyRun :: "database \<Rightarrow> nat \<Rightarrow> nat \<Rightarrow> error + processing_run" where
  "verifyRun db runId organizationId =
     (if runId > int4_max then Inl NumericValueOutOfRange
      else
       (case find (\<lambda>r. r_id r = runId) (processingRuns db) of
          None \<Rightarrow> Inl (NotFoundError ''Processing run'')
        | Some run \<Rightarrow>
            (case find (\<lambda>p. p_id p = r_projectId run) (projects db) of
               None \<Rightarrow> Inl TypeError
             | Some project \<Rightarrow>
                 if p_organizationId project \<noteq> organizationId
                 then Inl (NotFoundError ''Processing run'')
                 else Inr run)))"

record run_details =
  rd_id :: nat
  rd_projectId :: nat
  rd_status :: run_status
  rd_progress :: int
  rd_startedAt :: "timestamp option"
  rd_completedAt :: "timestamp option"
  rd_error :: "string option"
  rd_errorDetails :: "string option"
  rd_stats :: "run_stats option"
  rd_config :: "run_config option"
  rd_createdAt :: timestamp

definition getRun :: "database \<Rightarrow> nat \<Rightarrow> nat \<Rightarrow> error + run_details" where
  "getRun db runId organizationId =
     (case verifyRun db runId organizationId of
        Inl e \<Rightarrow> Inl e
      | Inr run \<Rightarrow> Inr \<lparr>rd_id = r_id run, rd_projectId = r_projectId run,
          rd_status = r_status run, rd_progress = r_progress run,
          rd_startedAt = r_startedAt run, rd_completedAt = r_completedAt run,
          rd_error = r_error run, rd_errorDetails = r_errorDetails run,
          rd_stats = r_stats run, rd_config = r_config run,
          rd_createdAt = r_createdAt run\<rparr>)"

text \<open>
  \<^verbatim>\<open>db.update(processingRuns).set(...).where(eq(processingRuns.id, runId))\<close>:
  every row with that id is rewritten, and no row is not an error.
\<close>

definition update_run ::
  "nat \<Rightarrow> (processing_run \<Rightarrow> processing_run) \<Rightarrow> database \<Rightarrow> database" where
  "update_run runId f db =
     db\<lparr>processingRuns := map (\<lambda>r. if r_id r = runId then f r else r) (processingRuns db)\<rparr>"

text \<open>
  \<^verbatim>\<open>cancelRun\<close> reads and checks the run, then issues an unconditional
  update. The two database statements are kept apart: \<open>cancelRun_check\<close> is
  the part up to the status test, \<open>cancelRun_update\<close> the statement after it.
\<close>

definition cancelRun_check :: "database \<Rightarrow> nat \<Rightarrow> nat \<Rightarrow> error + unit" where
  "cancelRun_check db runId organizationId =
     (case verifyRun db runId organizationId of
        Inl e \<Rightarrow> Inl e
      | Inr run \<Rightarrow>
          if r_status run \<notin> set [Pending, Running]
          then Inl (ValidationError ''Run cannot be cancelled'' ''RUN_NOT_CANCELLABLE'')
          else Inr ())"

definition cancelRun_update :: "nat \<Rightarrow> timestamp \<Rightarrow> database \<Rightarrow> database" where
  "cancelRun_update runId now db =
     update_run runId
       (\<lambda>r. r\<lparr>r_status := Cancelled, r_completedAt := Some now, r_updatedAt := now\<rparr>) db"

definition cancelRun ::
  "database \<Rightarrow> nat \<Rightarrow> nat \<Rightarrow> timestamp \<Rightarrow> (error + unit) \<times> database" where
  "cancelRun db runId organizationId now =
     (case cancelRun_check db runId organizationId of
        Inl e \<Rightarrow> (Inl e, db)
      | Inr u \<Rightarrow> (Inr (), cancelRun_update runId now db))"

record run_status_view =
  rs_id :: nat
  rs_status :: run_status
  rs_progress :: int
  rs_startedAt :: "timestamp option"
  rs_completedAt :: "timestamp option"
  rs_error :: "string option"

definition getRunStatus :: "database \<Rightarrow> nat \<Rightarrow> nat \<Rightarrow> error + run_status_view" where
  "getRunStatus db runId organizationId =
     (case verifyRun db runId organizationId of
        Inl e \<Rightarrow> Inl e
      | Inr run \<Rightarrow> Inr \<lparr>rs_id = r_id run, rs_status = r_status run,
          rs_progress = r_progress run, rs_startedAt = r_startedAt run,
          rs_completedAt = r_completedAt run, rs_error = r_error run\<rparr>)"

record dataset_view =
  dv_id :: nat
  dv_name :: string
  dv_format :: string
  dv_recordCount :: "int option"
  dv_stats :: "dataset_stats option"
  dv_createdAt :: timestamp

definition getRunDataset :: "database \<Rightarrow> nat \<Rightarrow> nat \<Rightarrow> error + dataset_view" where
  "getRunDataset db runId organizationId =
     (case verifyRun db runId organizationId of
        Inl e \<Rightarrow> Inl e
      | Inr run \<Rightarrow>
          (case find (\<lambda>d. d_runId d = runId) (datasets db) of
             None \<Rightarrow> Inl (NotFoundError ''Dataset'')
           | Some dataset \<Rightarrow> Inr \<lparr>dv_id = d_id dataset, dv_name = d_name dataset,
               dv_format = d_format dataset, dv_recordCount = d_recordCount dataset,
               dv_stats = d_stats dataset, dv_createdAt = d_createdAt dataset\<rparr>))"

section \<open>Dataset queries (datasets.service.ts)\<close>

text \<open>
  \<^verbatim>\<open>verifyDataset\<close> loads the dataset with its run and the run's project,
  and throws \<^verbatim>\<open>NotFoundError('Dataset')\<close> when the dataset is missing and
  when the project belongs to another organization. As for runs, the query
  fails for a dataset id above \<open>int4_max\<close>.
\<close>

definition verifyDataset :: "database \<Rightarrow> nat \<Rightarrow> nat \<Rightarrow> error + dataset" where
  "verifyDataset db datasetId organizationId =
     (if datasetId > int4_max then Inl NumericValueOutOfRange
      else
       (case find (\<lambda>d. d_id d = datasetId) (datasets db) of
          None \<Rightarrow> Inl (NotFoundError ''Dataset'')
        | Some dataset \<Rightarrow>
            (case find (\<lambda>r. r_id r = d_runId dataset) (processingRuns db) of
               None \<Rightarrow> Inl TypeError
             | Some run \<Rightarrow>
                 (case find (\<lambda>p. p_id p = r_projectId run) (projects db) of
                    None \<Rightarrow> Inl TypeError
                  | Some project \<Rightarrow>
                      if p_organizationId project \<noteq> organizationId
                      then Inl (NotFoundError ''Dataset'')
                      else Inr dataset))))"

record dataset_details =
  dd_id :: nat
  dd_name :: string
  dd_format :: string
  dd_recordCount :: "int option"
  dd_fileSize :: "int option"
  dd_stats :: "dataset_stats option"
  dd_runId :: nat
  dd_createdAt :: timestamp

definition getDataset :: "database \<Rightarrow> nat \<Rightarrow> nat \<Rightarrow> error + dataset_details" where
  "getDataset db datasetId organizationId =
     (case verifyDataset db datasetId organizationId of
        Inl e \<Rightarrow> Inl e
      | Inr dataset \<Rightarrow> Inr \<lparr>dd_id = d_id dataset, dd_name = d_name dataset,
          dd_format = d_format dataset, dd_recordCount = d_recordCount dataset,
          dd_fileSize = d_fileSize dataset, dd_stats = d_stats dataset,
          dd_runId = d_runId dataset, dd_createdAt = d_createdAt dataset\<rparr>)"

section \<open>Processing configuration and run creation (processing.service.ts)\<close>

definition verifyProject :: "database \<Rightarrow> nat \<Rightarrow> nat \<Rightarrow> error + project" where
  "verifyProject db projectId organizationId =
     (case find (\<lambda>p. p_id p = projectId \<and> p_organizationId p = organizationId
                      \<and> p_deletedAt p = None) (projects db) of
        None \<Rightarrow> Inl (NotFoundError ''Project'')
      | Some project \<Rightarrow> Inr project)"

definition defaultConfig :: processing_config where
  "defaultConfig = \<lparr>outputFormat = Conversational, includeMetadata = True, chunkSize = 1000,
     qualityFilters = \<lparr>minLength = 10, maxLength = 10000\<rparr>\<rparr>"

definition getProcessingConfig :: "database \<Rightarrow> nat \<Rightarrow> nat \<Rightarrow> error + processing_config" where
  "getProcessingConfig db projectId organizationId =
     (case verifyProject db projectId organizationId of
        Inl e \<Rightarrow> Inl e
      | Inr project \<Rightarrow>
          (case find (\<lambda>c. c_projectId c = projectId) (processingConfigs db) of
             None \<Rightarrow> Inr defaultConfig
           | Some config \<Rightarrow> Inr (c_config config)))"

definition updateProcessingConfig ::
  "database \<Rightarrow> nat \<Rightarrow> nat \<Rightarrow> processing_config \<Rightarrow> timestamp
     \<Rightarrow> (error + processing_config) \<times> database" where
  "updateProcessingConfig db projectId organizationId config now =
     (case verifyProject db projectId organizationId of
        Inl e \<Rightarrow> (Inl e, db)
      | Inr project \<Rightarrow>
          (case find (\<lambda>c. c_projectId c = projectId) (processingConfigs db) of
             Some existing \<Rightarrow>
               (Inr config,
                db\<lparr>processingConfigs :=
                     map (\<lambda>c. if c_projectId c = projectId
                               then c\<lparr>c_config := config, c_updatedAt := now\<rparr> else c)
                       (processingConfigs db)\<rparr>)
           | None \<Rightarrow>
               (Inr config,
                db\<lparr>processingConfigs := processingConfigs db @
                     [\<lparr>c_projectId = projectId, c_config = config, c_updatedAt = now\<rparr>]\<rparr>)))"

text \<open>
  \<^verbatim>\<open>createProcessingRun\<close> up to its insert: the project check, the search
  for a run of the project whose status is \<^verbatim>\<open>'running'\<close>, the count of
  ready sources, and the read of the configuration to snapshot
  (\<^verbatim>\<open>config?.config || {}\<close>).
\<close>

definition createProcessingRun_checks :: "database \<Rightarrow> nat \<Rightarrow> nat \<Rightarrow> error + run_config" where
  "createProcessingRun_checks db projectId organizationId =
     (case verifyProject db projectId organizationId of
        Inl e \<Rightarrow> Inl e
      | Inr project \<Rightarrow>
          (case find (\<lambda>r. r_projectId r = projectId \<and> r_status r = Running)
                  (processingRuns db) of
             Some existingRun \<Rightarrow>
               Inl (ValidationError ''A processing run is already active'' ''RUN_ALREADY_RUNNING'')
           | None \<Rightarrow>
               (let projectSources =
                      filter (\<lambda>s. s_projectId s = projectId \<and> s_status s = Ready) (sources db)
                in if length projectSources = 0
                   then Inl (ValidationError ''No ready sources configured for project''
                               ''NO_SOURCES_CONFIGURED'')
                   else (case find (\<lambda>c. c_projectId c = projectId) (processingConfigs db) of
                           None \<Rightarrow> Inr EmptyObject
                         | Some config \<Rightarrow> Inr (ConfigObject (c_config config))))))"

text \<open>
  The insert of the run row. The id comes from the sequence; the columns
  not named in \<^verbatim>\<open>values\<close> take their defaults (null, and the clock for
  \<^verbatim>\<open>created_at\<close> and \<^verbatim>\<open>updated_at\<close>).
\<close>

definition insert_run ::
  "nat \<Rightarrow> run_config \<Rightarrow> timestamp \<Rightarrow> database \<Rightarrow> processing_run \<times> database" where
  "insert_run projectId config now db =
     (let run = \<lparr>r_id = processingRuns_id_seq db, r_projectId = projectId,
                 r_status = Pending, r_progress = 0, r_startedAt = None,
                 r_completedAt = None, r_error = None, r_errorDetails = None,
                 r_config = Some config, r_stats = None,
                 r_createdAt = now, r_updatedAt = now\<rparr>
      in (run, db\<lparr>processingRuns := processingRuns db @ [run],
                  processingRuns_id_seq := Suc (processingRuns_id_seq db)\<rparr>))"

section \<open>The background pipeline (simulateProcessing)\<close>

text \<open>
  \<^verbatim>\<open>simulateProcessing(runId)\<close> is started by \<^verbatim>\<open>createProcessingRun\<close> and
  not awaited; it sleeps 500 ms before each progress write, so requests run
  between its database statements. It is modelled one statement at a time:
  the position says which statement is next. \<open>AtLoop p\<close> is the head of the
  \<^verbatim>\<open>for\<close> loop with the loop variable at \<open>p\<close>: while \<open>p \<le> 100\<close> the next
  statement writes the progress, afterwards it is the completion update.
  \<open>Rejected\<close> is the promise rejected by a failed statement.
\<close>

datatype position = AtStart | AtLoop int | AtInsert | Finished | Rejected error

definition finalStats :: run_stats where
  "finalStats = \<lparr>totalRecords = 100, processedRecords = 100, piiDetected = 15, piiMasked = 15\<rparr>"

definition digit :: "nat \<Rightarrow> char" where
  "digit n = ''0123456789'' ! (n mod 10)"

text \<open>The decimal digits of a number, as a template literal prints it.\<close>

fun show_nat :: "nat \<Rightarrow> string" where
  "show_nat n = (if n < 10 then [digit n] else show_nat (n div 10) @ [digit (n mod 10)])"

text \<open>
  The insert of the dataset row. The id is taken from the sequence first,
  and a sequence does not give a value back: the database consumes it also
  when it then rejects the row. \<^verbatim>\<open>run_id\<close> is declared \<^verbatim>\<open>.unique()\<close>
  (and has the unique index \<^verbatim>\<open>datasets_run_idx\<close>), so a second row for the
  same run is rejected when the row is entered into the index; \<^verbatim>\<open>run_id\<close>
  references \<^verbatim>\<open>processing_runs.id\<close>, which is checked at the end of the
  statement, so a row for a run that does not exist is rejected next.
\<close>

definition insert_dataset ::
  "nat \<Rightarrow> timestamp \<Rightarrow> database \<Rightarrow> (error + unit) \<times> database" where
  "insert_dataset runId now db =
     (if list_ex (\<lambda>d. d_runId d = runId) (datasets db)
      then (Inl (UniqueViolation ''datasets_run_id_unique''),
            db\<lparr>datasets_id_seq := Suc (datasets_id_seq db)\<rparr>)
      else if \<not> list_ex (\<lambda>r. r_id r = runId) (processingRuns db)
      then (Inl (ForeignKeyViolation ''datasets_run_id_processing_runs_id_fk''),
            db\<lparr>datasets_id_seq := Suc (datasets_id_seq db)\<rparr>)
      else (Inr (),
            db\<lparr>datasets := datasets db @
             [\<lparr>d_id = datasets_id_seq db, d_runId = runId,
               d_name = ''Dataset from Run '' @ show_nat runId,
               d_format = ''conversational'', d_filePath = None, d_fileSize = None,
               d_recordCount = Some 100,
               d_stats = Some \<lparr>totalConversations = 50, avgConversationLength = 9 / 2,
                                uniqueSpeakers = 25\<rparr>,
               d_createdAt = now, d_updatedAt = now\<rparr>],
             datasets_id_seq := Suc (datasets_id_seq db)\<rparr>))"

fun simulateProcessing_step ::
  "nat \<Rightarrow> timestamp \<Rightarrow> position \<Rightarrow> database \<Rightarrow> position \<times> database" where
  "simulateProcessing_step runId now AtStart db =
     (AtLoop 10, update_run runId (\<lambda>r. r\<lparr>r_status := Running, r_startedAt := Some now\<rparr>) db)"
| "simulateProcessing_step runId now (AtLoop progress) db =
     (if progress \<le> 100
      then (AtLoop (progress + 10), update_run runId (\<lambda>r. r\<lparr>r_progress := progress\<rparr>) db)
      else (AtInsert,
            update_run runId
              (\<lambda>r. r\<lparr>r_status := Completed, r_progress := 100, r_completedAt := Some now,
                      r_stats := Some finalStats\<rparr>) db))"
| "simulateProcessing_step runId now AtInsert db =
     (case insert_dataset runId now db of
        (Inl e, db') \<Rightarrow> (Rejected e, db')
      | (Inr u, db') \<Rightarrow> (Finished, db'))"
| "simulateProcessing_step runId now Finished db = (Finished, db)"
| "simulateProcessing_step runId now (Rejected e) db = (Rejected e, db)"

section \<open>The running system\<close>

text \<open>
  The state of the server: the database, the background pipelines (one per
  run id, with its position), and the requests that have passed their checks
  and whose write is still to be executed.
\<close>

datatype request = CancelUpdate nat | RunInsert nat run_config

record system =
  sys_db :: database
  pipelines :: "nat \<Rightarrow> position option"
  inflight :: "request list"

record run_created =
  rc_id :: nat
  rc_status :: run_status
  rc_progress :: int
  rc_createdAt :: timestamp

text \<open>The insert of \<^verbatim>\<open>createProcessingRun\<close> and the start of the pipeline.\<close>

definition createProcessingRun_insert ::
  "nat \<Rightarrow> run_config \<Rightarrow> timestamp \<Rightarrow> system \<Rightarrow> run_created \<times> system" where
  "createProcessingRun_insert projectId config now w =
     (case insert_run projectId config now (sys_db w) of
        (run, db') \<Rightarrow>
          (\<lparr>rc_id = r_id run, rc_status = r_status run, rc_progress = r_progress run,
            rc_createdAt = r_createdAt run\<rparr>,
           w\<lparr>sys_db := db', pipelines := (pipelines w)(r_id run \<mapsto> AtStart)\<rparr>))"

definition createProcessingRun ::
  "system \<Rightarrow> nat \<Rightarrow> nat \<Rightarrow> timestamp \<Rightarrow> (error + run_created) \<times> system" where
  "createProcessingRun w projectId organizationId now =
     (case createProcessingRun_checks (sys_db w) projectId organizationId of
        Inl e \<Rightarrow> (Inl e, w)
      | Inr config \<Rightarrow>
          (case createProcessingRun_insert projectId config now w of
             (created, w') \<Rightarrow> (Inr created, w')))"

text \<open>One statement of the pipeline of a run, if the run has one.\<close>

definition pipeline_step :: "nat \<Rightarrow> timestamp \<Rightarrow> system \<Rightarrow> system" where
  "pipeline_step runId now w =
     (case pipelines w runId of
        None \<Rightarrow> w
      | Some pos \<Rightarrow>
          (case simulateProcessing_step runId now pos (sys_db w) of
             (pos', db') \<Rightarrow> w\<lparr>sys_db := db', pipelines := (pipelines w)(runId \<mapsto> pos')\<rparr>))"

text \<open>
  What can happen next. A request runs its reads and checks in one event and
  its write in a later one (\<open>Resume i\<close> executes the \<open>i\<close>-th waiting write), so
  that other statements may come between the two; a pipeline advances by one
  statement.
\<close>

datatype event =
    CreateRunRequest nat nat
  | CancelRunRequest nat nat
  | Resume nat timestamp
  | PipelineStep nat timestamp

fun resume :: "request \<Rightarrow> timestamp \<Rightarrow> system \<Rightarrow> system" where
  "resume (CancelUpdate runId) now w = w\<lparr>sys_db := cancelRun_update runId now (sys_db w)\<rparr>"
| "resume (RunInsert projectId config) now w =
     snd (createProcessingRun_insert projectId config now w)"

fun step :: "system \<Rightarrow> event \<Rightarrow> system" where
  "step w (CreateRunRequest projectId organizationId) =
     (case createProcessingRun_checks (sys_db w) projectId organizationId of
        Inl e \<Rightarrow> w
      | Inr config \<Rightarrow> w\<lparr>inflight := inflight w @ [RunInsert projectId config]\<rparr>)"
| "step w (CancelRunRequest runId organizationId) =
     (case cancelRun_check (sys_db w) runId organizationId of
        Inl e \<Rightarrow> w
      | Inr u \<Rightarrow> w\<lparr>inflight := inflight w @ [CancelUpdate runId]\<rparr>)"
| "step w (Resume i now) =
     (if i < length (inflight w)
      then resume (inflight w ! i) now
             (w\<lparr>inflight := take i (inflight w) @ drop (Suc i) (inflight w)\<rparr>)
      else w)"
| "step w (PipelineStep runId now) = pipeline_step runId now w"

definition run_events :: "system \<Rightarrow> event list \<Rightarrow> system" where
  "run_events w es = foldl step w es"

text \<open>A server that has not yet created a run.\<close>

definition initial :: "system \<Rightarrow> bool" where
  "initial w \<longleftrightarrow> processingRuns (sys_db w) = [] \<and> datasets (sys_db w) = []
     \<and> pipelines w = Map.empty"

section \<open>Source synchronisation (sources.service.ts)\<close>

definition verifySource :: "database \<Rightarrow> nat \<Rightarrow> nat \<Rightarrow> error + source" where
  "verifySource db sourceId organizationId =
     (case find (\<lambda>s. s_id s = sourceId) (sources db) of
        None \<Rightarrow> Inl (NotFoundError ''Source'')
      | Some source \<Rightarrow>
          (case find (\<lambda>p. p_id p = s_projectId source) (projects db) of
             None \<Rightarrow> Inl TypeError
           | Some project \<Rightarrow>
               if p_organizationId project \<noteq> organizationId
               then Inl (NotFoundError ''Source'')
               else Inr source))"

definition update_source :: "nat \<Rightarrow> (source \<Rightarrow> source) \<Rightarrow> database \<Rightarrow> database" where
  "update_source sourceId f db =
     db\<lparr>sources := map (\<lambda>s. if s_id s = sourceId then f s else s) (sources db)\<rparr>"

text \<open>
  \<^verbatim>\<open>triggerSync\<close> returns its message, the database after its update, and
  the timers it has set: the delay in milliseconds and the source whose
  completion callback \<open>syncCompleted\<close> will run.
\<close>

definition syncCompleted :: "nat \<Rightarrow> timestamp \<Rightarrow> database \<Rightarrow> database" where
  "syncCompleted sourceId now db =
     update_source sourceId
       (\<lambda>s. s\<lparr>s_status := Ready, s_lastSyncAt := Some now, s_recordCount := Some 100,
               s_updatedAt := now\<rparr>) db"

definition triggerSync ::
  "database \<Rightarrow> nat \<Rightarrow> nat \<Rightarrow> timestamp \<Rightarrow> (error + string) \<times> database \<times> (nat \<times> nat) list" where
  "triggerSync db sourceId organizationId now =
     (case verifySource db sourceId organizationId of
        Inl e \<Rightarrow> (Inl e, db, [])
      | Inr source \<Rightarrow>
          if s_type source \<noteq> Teamwork
          then (Inl (BadRequestError ''Only Teamwork sources can be synced''), db, [])
          else (Inr ''Sync started'',
                update_source sourceId (\<lambda>s. s\<lparr>s_status := Syncing, s_updatedAt := now\<rparr>) db,
                [(2000, sourceId)]))"

section \<open>Reading the state\<close>

text \<open>The spelling of an output format in the stored JSON.\<close>

fun formatName :: "output_format \<Rightarrow> string" where
  "formatName Conversational = ''conversational''"
| "formatName Qa = ''qa''"
| "formatName Json = ''json''"

definition has_dataset :: "database \<Rightarrow> nat \<Rightarrow> bool" where
  "has_dataset db runId = list_ex (\<lambda>d. d_runId d = runId) (datasets db)"

definition dataset_count :: "database \<Rightarrow> nat \<Rightarrow> nat" where
  "dataset_count db runId = length (filter (\<lambda>d. d_runId d = runId) (datasets db))"

text \<open>
  What a run row looks like while its pipeline is at a given position, with
  \<open>n\<close> the number of dataset rows of the run. A cancel update may have been
  applied at any position, so \<^verbatim>\<open>cancelled\<close> is possible throughout.
\<close>

fun run_ok :: "nat \<Rightarrow> position \<Rightarrow> processing_run \<Rightarrow> bool" where
  "run_ok n AtStart r \<longleftrightarrow>
     (r_status r = Pending \<or> r_status r = Cancelled) \<and> r_progress r = 0
     \<and> r_stats r = None \<and> n = 0"
| "run_ok n (AtLoop p) r \<longleftrightarrow>
     (r_status r = Running \<or> r_status r = Cancelled) \<and> 10 \<le> p \<and> p \<le> 110
     \<and> r_progress r = p - 10 \<and> r_stats r = None \<and> n = 0"
| "run_ok n AtInsert r \<longleftrightarrow>
     (r_status r = Completed \<or> r_status r = Cancelled) \<and> r_progress r = 100
     \<and> r_stats r = Some finalStats \<and> n = 0"
| "run_ok n Finished r \<longleftrightarrow>
     (r_status r = Completed \<or> r_status r = Cancelled) \<and> r_progress r = 100
     \<and> r_stats r = Some finalStats \<and> n = 1"
| "run_ok n (Rejected e) r \<longleftrightarrow> False"

text \<open>
  The invariant of the running system: run ids are distinct and below the
  sequence, every run has a pipeline whose position fits the row, pipelines
  and datasets belong to existing runs.
\<close>

definition consistent :: "system \<Rightarrow> bool" where
  "consistent w \<longleftrightarrow>
     distinct (map r_id (processingRuns (sys_db w)))
   \<and> (\<forall>r \<in> set (processingRuns (sys_db w)). r_id r < processingRuns_id_seq (sys_db w))
   \<and> (\<forall>r \<in> set (processingRuns (sys_db w)).
        pipelines w (r_id r) \<noteq> None
        \<and> run_ok (dataset_count (sys_db w) (r_id r)) (the (pipelines w (r_id r))) r)
   \<and> (\<forall>runId. pipelines w runId \<noteq> None \<longrightarrow> runId \<in> r_id ` set (processingRuns (sys_db w)))
   \<and> (\<forall>d \<in> set (datasets (sys_db w)). d_runId d \<in> r_id ` set (processingRuns (sys_db w)))"

section \<open>Example states\<close>

text \<open>
  Organization 1 owns projects 1 and 3, organization 2 owns project 2.
  Project 1 has a ready Teamwork source and a stored configuration with
  output format \<^verbatim>\<open>qa\<close>; project 2 has a ready file source and no stored
  configuration; project 3 has only a pending source.
\<close>

definition exampleDb :: database where
  "exampleDb =
     \<lparr>projects =
        [\<lparr>p_id = 1, p_name = ''Support'', p_organizationId = 1, p_deletedAt = None\<rparr>,
         \<lparr>p_id = 2, p_name = ''Sales'', p_organizationId = 2, p_deletedAt = None\<rparr>,
         \<lparr>p_id = 3, p_name = ''Archive'', p_organizationId = 1, p_deletedAt = None\<rparr>],
      sources =
        [\<lparr>s_id = 1, s_name = ''Desk'', s_type = Teamwork, s_status = Ready, s_projectId = 1,
          s_lastSyncAt = None, s_recordCount = None, s_updatedAt = 0\<rparr>,
         \<lparr>s_id = 2, s_name = ''Upload'', s_type = File, s_status = Ready, s_projectId = 2,
          s_lastSyncAt = None, s_recordCount = None, s_updatedAt = 0\<rparr>,
         \<lparr>s_id = 3, s_name = ''Old desk'', s_type = Teamwork, s_status = SourcePending,
          s_projectId = 3, s_lastSyncAt = None, s_recordCount = None, s_updatedAt = 0\<rparr>],
      processingConfigs =
        [\<lparr>c_projectId = 1, c_config = defaultConfig\<lparr>outputFormat := Qa\<rparr>, c_updatedAt = 0\<rparr>],
      processingRuns = [], datasets = [],
      processingRuns_id_seq = 1, datasets_id_seq = 1\<rparr>"

definition exampleSystem :: system where
  "exampleSystem = \<lparr>sys_db = exampleDb, pipelines = Map.empty, inflight = []\<rparr>"

text \<open>Run 1 of project 1, in a given status, at progress 40.\<close>

definition exampleRun :: "run_status \<Rightarrow> processing_run" where
  "exampleRun st =
     \<lparr>r_id = 1, r_projectId = 1, r_status = st, r_progress = 40, r_startedAt = Some 1500,
      r_completedAt = None, r_error = None, r_errorDetails = None,
      r_config = Some (ConfigObject (defaultConfig\<lparr>outputFormat := Qa\<rparr>)), r_stats = None,
      r_createdAt = 1000, r_updatedAt = 1000\<rparr>"

definition exampleDbWithRun :: "run_status \<Rightarrow> database" where
  "exampleDbWithRun st = exampleDb\<lparr>processingRuns := [exampleRun st], processingRuns_id_seq := 2\<rparr>"

definition exampleSystemWithRun :: "run_status \<Rightarrow> position \<Rightarrow> system" where
  "exampleSystemWithRun st pos =
     \<lparr>sys_db = exampleDbWithRun st, pipelines = [1 \<mapsto> pos], inflight = []\<rparr>"

text \<open>
  Runs of the example system. \<open>createdRun\<close>: organization 1 has created run 1
  for project 1. \<open>completedRun\<close>: its pipeline has executed the start
  update, the ten progress updates and the completion update;
  \<open>materialisedRun\<close>: also the dataset insert. \<open>cancelledRun\<close>: the run was
  cancelled while pending; \<open>resumedAfterCancel\<close> and \<open>finishedAfterCancel\<close>:
  the pipeline then executed its first statement, and all of them.
  \<open>lateCancel\<close>: a cancel request passes its status check after the last
  progress update, the pipeline executes its completion update and its
  dataset insert, and then the update of the cancel request is executed.
\<close>

definition pipelineSteps :: "nat \<Rightarrow> timestamp list \<Rightarrow> event list" where
  "pipelineSteps runId ticks = map (PipelineStep runId) ticks"

definition createdRun :: system where
  "createdRun = run_events exampleSystem [CreateRunRequest 1 1, Resume 0 1000]"

definition completedRun :: system where
  "completedRun = run_events createdRun
     (pipelineSteps 1 [1500, 2000, 2500, 3000, 3500, 4000, 4500, 5000, 5500, 6000, 6500, 6501])"

definition materialisedRun :: system where
  "materialisedRun = run_events completedRun [PipelineStep 1 6502]"

definition cancelledRun :: system where
  "cancelledRun = run_events createdRun [CancelRunRequest 1 1, Resume 0 1200]"

definition resumedAfterCancel :: system where
  "resumedAfterCancel = run_events cancelledRun [PipelineStep 1 1500]"

definition finishedAfterCancel :: system where
  "finishedAfterCancel = run_events resumedAfterCancel
     (pipelineSteps 1 [2000, 2500, 3000, 3500, 4000, 4500, 5000, 5500, 6000, 6500, 6501, 6502])"

definition lateCancel :: system where
  "lateCancel = run_events createdRun
     (pipelineSteps 1 [1500, 2000, 2500, 3000, 3500, 4000, 4500, 5000, 5500, 6000, 6500]
      @ [CancelRunRequest 1 1]
      @ pipelineSteps 1 [6501, 6502]
      @ [Resume 0 6503])"

section \<open>Lookups after an update\<close>

lemma find_map_update:
  assumes "find (\<lambda>r. k r = i) xs = Some r" and "\<And>x. k (f x) = k x"
  shows "find (\<lambda>r. k r = i) (map (\<lambda>x. if k x = i then f x else x) xs) = Some (f r)"
  using assms(1) by (induction xs) (auto simp: assms(2))

lemma verifyRun_Inr_find:
  "verifyRun db runId organizationId = Inr run \<Longrightarrow>
     find (\<lambda>r. r_id r = runId) (processingRuns db) = Some run"
  by (auto simp: verifyRun_def split: option.splits if_splits)

lemma verifySource_Inr_find:
  "verifySource db sourceId organizationId = Inr source \<Longrightarrow>
     find (\<lambda>s. s_id s = sourceId) (sources db) = Some source"
  by (auto simp: verifySource_def split: option.splits if_splits)

section \<open>Tenant isolation of the run operations\<close>

text \<open>
  C9, as amended. For run ids within the range of the \<^verbatim>\<open>integer\<close> column:
  a run operation (\<open>getRun\<close>, \<open>getRunStatus\<close>, \<open>cancelRun\<close>,
  \<open>getRunDataset\<close>) called by an organization that does not own the run's
  project fails with \<^verbatim>\<open>NotFoundError('Processing run')\<close>, which is exactly
  what the same call returns for a run id of that range that does not exist;
  \<open>cancelRun\<close> leaves the database unchanged in both cases.
\<close>

theorem foreign_run_indistinguishable_from_missing:
  assumes "runId \<le> int4_max" and "missingId \<le> int4_max"
      and "find (\<lambda>r. r_id r = runId) (processingRuns db) = Some run"
      and "find (\<lambda>p. p_id p = r_projectId run) (projects db) = Some project"
      and "p_organizationId project \<noteq> organizationId"
      and "find (\<lambda>r. r_id r = missingId) (processingRuns db) = None"
  shows "getRun db runId organizationId = Inl (NotFoundError ''Processing run'')
       \<and> getRun db missingId organizationId = getRun db runId organizationId
       \<and> getRunStatus db runId organizationId = Inl (NotFoundError ''Processing run'')
       \<and> getRunStatus db missingId organizationId = getRunStatus db runId organizationId
       \<and> cancelRun db runId organizationId now = (Inl (NotFoundError ''Processing run''), db)
       \<and> cancelRun db missingId organizationId now = cancelRun db runId organizationId now
       \<and> getRunDataset db runId organizationId = Inl (NotFoundError ''Processing run'')
       \<and> getRunDataset db missingId organizationId = getRunDataset db runId organizationId"
proof -
  have "verifyRun db runId organizationId = Inl (NotFoundError ''Processing run'')"
    using assms(1,3,4,5) by (simp add: verifyRun_def)
  moreover have "verifyRun db missingId organizationId = Inl (NotFoundError ''Processing run'')"
    using assms(2,6) by (simp add: verifyRun_def)
  ultimately show ?thesis
    by (simp add: getRun_def getRunStatus_def cancelRun_def cancelRun_check_def
        getRunDataset_def)
qed

theorem foreign_run_indistinguishable_from_missing_witness:
  "find (\<lambda>r. r_id r = 1) (processingRuns (exampleDbWithRun Running)) = Some (exampleRun Running)
   \<and> find (\<lambda>r. r_id r = 7) (processingRuns (exampleDbWithRun Running)) = None
   \<and> getRun (exampleDbWithRun Running) 1 2 = Inl (NotFoundError ''Processing run'')
   \<and> getRun (exampleDbWithRun Running) 7 2 = getRun (exampleDbWithRun Running) 1 2
   \<and> cancelRun (exampleDbWithRun Running) 7 2 5000 = cancelRun (exampleDbWithRun Running) 1 2 5000
   \<and> getRunDataset (exampleDbWithRun Running) 7 2 = getRunDataset (exampleDbWithRun Running) 1 2
   \<and> rd_status (projr (getRun (exampleDbWithRun Running) 1 1)) = Running"
  using foreign_run_indistinguishable_from_missing
    [of 1 7 "exampleDbWithRun Running" "exampleRun Running"
        "\<lparr>p_id = 1, p_name = ''Support'', p_organizationId = 1, p_deletedAt = None\<rparr>" 2 5000]
  by (simp add: exampleDbWithRun_def exampleDb_def exampleRun_def getRun_def verifyRun_def)

text \<open>
  C9 as stated fails for a run id that does not exist because it is above
  the range of the column: the routes pass 2147483648 on, the query fails,
  and the caller gets status 500 where a foreign run gives status 404.
\<close>

theorem run_id_out_of_range_counterexample:
  "map r_id (processingRuns (exampleDbWithRun Running)) = [1]
   \<and> getRun (exampleDbWithRun Running) 2147483648 2 = Inl NumericValueOutOfRange
   \<and> statusCode NumericValueOutOfRange = 500
   \<and> getRun (exampleDbWithRun Running) 1 2 = Inl (NotFoundError ''Processing run'')
   \<and> statusCode (NotFoundError ''Processing run'') = 404"
  by (simp add: exampleDbWithRun_def exampleDb_def exampleRun_def getRun_def verifyRun_def)

text \<open>
  The dataset service does the same: for dataset ids within the range of
  the column, \<open>getDataset\<close> called by an organization that does not own the
  project of the dataset's run fails with \<^verbatim>\<open>NotFoundError('Dataset')\<close>, as
  it does for a dataset id that does not exist.
\<close>

theorem foreign_dataset_indistinguishable_from_missing:
  assumes "datasetId \<le> int4_max" and "missingId \<le> int4_max"
      and "find (\<lambda>d. d_id d = datasetId) (datasets db) = Some dataset"
      and "find (\<lambda>r. r_id r = d_runId dataset) (processingRuns db) = Some run"
      and "find (\<lambda>p. p_id p = r_projectId run) (projects db) = Some project"
      and "p_organizationId project \<noteq> organizationId"
      and "find (\<lambda>d. d_id d = missingId) (datasets db) = None"
  shows "getDataset db datasetId organizationId = Inl (NotFoundError ''Dataset'')
       \<and> getDataset db missingId organizationId = getDataset db datasetId organizationId"
  using assms by (simp add: getDataset_def verifyDataset_def)

theorem foreign_dataset_indistinguishable_from_missing_witness:
  "map d_id (datasets (sys_db materialisedRun)) = [1]
   \<and> getDataset (sys_db materialisedRun) 1 2 = Inl (NotFoundError ''Dataset'')
   \<and> getDataset (sys_db materialisedRun) 9 2 = getDataset (sys_db materialisedRun) 1 2
   \<and> dd_runId (projr (getDataset (sys_db materialisedRun) 1 1)) = 1"
  using foreign_dataset_indistinguishable_from_missing
    [of 1 9 "sys_db materialisedRun" "hd (datasets (sys_db materialisedRun))"
        "hd (processingRuns (sys_db materialisedRun))"
        "\<lparr>p_id = 1, p_name = ''Support'', p_organizationId = 1, p_deletedAt = None\<rparr>" 2]
  by (simp add: getDataset_def verifyDataset_def materialisedRun_def completedRun_def
      createdRun_def run_events_def pipelineSteps_def createProcessingRun_checks_def
      createProcessingRun_insert_def insert_run_def Let_def verifyProject_def
      exampleSystem_def exampleDb_def update_run_def pipeline_step_def insert_dataset_def)

section \<open>Cancellation\<close>

text \<open>
  C4. For a run visible to the caller: when its status is \<^verbatim>\<open>pending\<close> or
  \<^verbatim>\<open>running\<close>, \<open>cancelRun\<close> succeeds and the run read back afterwards is the
  same run with status \<^verbatim>\<open>cancelled\<close> and the completion time (and
  \<^verbatim>\<open>updatedAt\<close>) set to now; when its status is \<^verbatim>\<open>completed\<close>,
  \<^verbatim>\<open>failed\<close> or \<^verbatim>\<open>cancelled\<close>, \<open>cancelRun\<close> fails with the
  \<^verbatim>\<open>ValidationError\<close> "Run cannot be cancelled" and the database is unchanged.
\<close>

theorem cancelRun_by_status:
  assumes "verifyRun db runId organizationId = Inr run"
  shows "(r_status run = Pending \<or> r_status run = Running \<longrightarrow>
            fst (cancelRun db runId organizationId now) = Inr ()
          \<and> verifyRun (snd (cancelRun db runId organizationId now)) runId organizationId
              = Inr (run\<lparr>r_status := Cancelled, r_completedAt := Some now, r_updatedAt := now\<rparr>))
       \<and> (r_status run = Completed \<or> r_status run = Failed \<or> r_status run = Cancelled \<longrightarrow>
            cancelRun db runId organizationId now
              = (Inl (ValidationError ''Run cannot be cancelled'' ''RUN_NOT_CANCELLABLE''), db))"
proof -
  from assms have f: "find (\<lambda>r. r_id r = runId) (processingRuns db) = Some run"
    by (rule verifyRun_Inr_find)
  have upd: "find (\<lambda>r. r_id r = runId)
        (map (\<lambda>r. if r_id r = runId
                  then r\<lparr>r_status := Cancelled, r_completedAt := Some now, r_updatedAt := now\<rparr>
                  else r) (processingRuns db))
      = Some (run\<lparr>r_status := Cancelled, r_completedAt := Some now, r_updatedAt := now\<rparr>)"
    using find_map_update [OF f, of "\<lambda>r. r\<lparr>r_status := Cancelled, r_completedAt := Some now, r_updatedAt := now\<rparr>"]
    by simp
  show ?thesis
    using assms f upd
    by (auto simp: cancelRun_def cancelRun_check_def cancelRun_update_def update_run_def
        verifyRun_def split: option.splits if_splits)
qed

theorem cancelRun_by_status_witness:
  "verifyRun (exampleDbWithRun Running) 1 1 = Inr (exampleRun Running)
   \<and> fst (cancelRun (exampleDbWithRun Running) 1 1 5000) = Inr ()
   \<and> verifyRun (snd (cancelRun (exampleDbWithRun Running) 1 1 5000)) 1 1
       = Inr ((exampleRun Cancelled)\<lparr>r_completedAt := Some 5000, r_updatedAt := 5000\<rparr>)
   \<and> verifyRun (exampleDbWithRun Completed) 1 1 = Inr (exampleRun Completed)
   \<and> cancelRun (exampleDbWithRun Completed) 1 1 5000
       = (Inl (ValidationError ''Run cannot be cancelled'' ''RUN_NOT_CANCELLABLE''),
          exampleDbWithRun Completed)"
  using cancelRun_by_status [of "exampleDbWithRun Running" 1 1 "exampleRun Running" 5000]
    cancelRun_by_status [of "exampleDbWithRun Completed" 1 1 "exampleRun Completed" 5000]
  by (simp add: exampleDbWithRun_def exampleDb_def exampleRun_def verifyRun_def)

section \<open>Creating a run\<close>

text \<open>
  C6. When the project check passes, no run of the project is
  \<^verbatim>\<open>running\<close> (the code's active-run check) and no source of the project is
  \<^verbatim>\<open>ready\<close>, \<open>createProcessingRun\<close> fails with the \<^verbatim>\<open>ValidationError\<close>
  (status 422) "No ready sources configured for project" and the system,
  its run table included, is unchanged.
\<close>

theorem no_ready_sources_rejected:
  assumes "verifyProject (sys_db w) projectId organizationId = Inr project"
      and "\<forall>r \<in> set (processingRuns (sys_db w)). r_projectId r = projectId \<longrightarrow> r_status r \<noteq> Running"
      and "\<forall>s \<in> set (sources (sys_db w)). s_projectId s = projectId \<longrightarrow> s_status s \<noteq> Ready"
  shows "createProcessingRun w projectId organizationId now
           = (Inl (ValidationError ''No ready sources configured for project''
                     ''NO_SOURCES_CONFIGURED''), w)
       \<and> statusCode (ValidationError ''No ready sources configured for project''
                     ''NO_SOURCES_CONFIGURED'') = 422"
proof -
  have a: "find (\<lambda>r. r_projectId r = projectId \<and> r_status r = Running)
             (processingRuns (sys_db w)) = None"
    using assms(2) by (auto simp: find_None_iff)
  have b: "filter (\<lambda>s. s_projectId s = projectId \<and> s_status s = Ready) (sources (sys_db w)) = []"
    using assms(3) by (auto simp: filter_empty_conv)
  show ?thesis
    by (simp add: createProcessingRun_def createProcessingRun_checks_def assms(1) a b)
qed

theorem no_ready_sources_rejected_witness:
  "verifyProject (sys_db exampleSystem) 3 1
     = Inr \<lparr>p_id = 3, p_name = ''Archive'', p_organizationId = 1, p_deletedAt = None\<rparr>
   \<and> createProcessingRun exampleSystem 3 1 1000
       = (Inl (ValidationError ''No ready sources configured for project''
                 ''NO_SOURCES_CONFIGURED''), exampleSystem)"
  using no_ready_sources_rejected [of exampleSystem 3 1 "\<lparr>p_id = 3, p_name = ''Archive'', p_organizationId = 1, p_deletedAt = None\<rparr>" 1000]
  by (simp add: exampleSystem_def exampleDb_def verifyProject_def)

text \<open>
  C1, as amended. When the project check passes and a run of the project
  has status \<^verbatim>\<open>running\<close>, \<open>createProcessingRun\<close> fails with the
  \<^verbatim>\<open>ValidationError\<close> (status 422) "A processing run is already active"
  and the system is unchanged: no run row is inserted and the existing runs
  are as they were.
\<close>

theorem running_run_blocks_create:
  assumes "verifyProject (sys_db w) projectId organizationId = Inr project"
      and "r \<in> set (processingRuns (sys_db w))"
      and "r_projectId r = projectId" and "r_status r = Running"
  shows "createProcessingRun w projectId organizationId now
           = (Inl (ValidationError ''A processing run is already active''
                     ''RUN_ALREADY_RUNNING''), w)
       \<and> statusCode (ValidationError ''A processing run is already active''
                     ''RUN_ALREADY_RUNNING'') = 422"
proof -
  have "find (\<lambda>r. r_projectId r = projectId \<and> r_status r = Running)
             (processingRuns (sys_db w)) \<noteq> None"
    using assms(2-4) by (auto simp: find_None_iff)
  then show ?thesis
    by (auto simp: createProcessingRun_def createProcessingRun_checks_def assms(1))
qed

theorem running_run_blocks_create_witness:
  "exampleRun Running \<in> set (processingRuns (sys_db (exampleSystemWithRun Running (AtLoop 50))))
   \<and> createProcessingRun (exampleSystemWithRun Running (AtLoop 50)) 1 1 5000
       = (Inl (ValidationError ''A processing run is already active'' ''RUN_ALREADY_RUNNING''),
          exampleSystemWithRun Running (AtLoop 50))"
  using running_run_blocks_create [of "exampleSystemWithRun Running (AtLoop 50)" 1 1
      "\<lparr>p_id = 1, p_name = ''Support'', p_organizationId = 1, p_deletedAt = None\<rparr>"
      "exampleRun Running" 5000]
  by (simp add: exampleSystemWithRun_def exampleDbWithRun_def exampleDb_def exampleRun_def
      verifyProject_def)

text \<open>
  C1 as stated fails: with run 1 of project 1 running, the request fails
  with a \<^verbatim>\<open>ValidationError\<close> (422), which is no \<^verbatim>\<open>ConflictError\<close> (409);
  with run 1 of project 1 pending, the request succeeds and inserts a second
  pending run of project 1.
\<close>

theorem active_run_conflict_counterexample:
  "fst (createProcessingRun (exampleSystemWithRun Running (AtLoop 50)) 1 1 5000)
     = Inl (ValidationError ''A processing run is already active'' ''RUN_ALREADY_RUNNING'')
   \<and> statusCode (ValidationError ''A processing run is already active'' ''RUN_ALREADY_RUNNING'')
       = 422
   \<and> statusCode (ConflictError ''Conflict'' ''CONFLICT'') = 409
   \<and> map r_status (processingRuns (sys_db (exampleSystemWithRun Pending AtStart))) = [Pending]
   \<and> map r_id (processingRuns (sys_db (snd
         (createProcessingRun (exampleSystemWithRun Pending AtStart) 1 1 5000)))) = [1, 2]
   \<and> map r_projectId (processingRuns (sys_db (snd
         (createProcessingRun (exampleSystemWithRun Pending AtStart) 1 1 5000)))) = [1, 1]
   \<and> map r_status (processingRuns (sys_db (snd
         (createProcessingRun (exampleSystemWithRun Pending AtStart) 1 1 5000))))
       = [Pending, Pending]"
  by (simp add: createProcessingRun_def createProcessingRun_checks_def
      createProcessingRun_insert_def insert_run_def Let_def
      exampleSystemWithRun_def exampleDbWithRun_def exampleDb_def exampleRun_def
      verifyProject_def)


text \<open>
  C5, as amended. When the project check passes, no run of the project is
  \<^verbatim>\<open>running\<close> and some source of the project is \<^verbatim>\<open>ready\<close>,
  \<open>createProcessingRun\<close> appends one run with the next id of the sequence,
  status \<^verbatim>\<open>pending\<close>, progress 0 and, as configuration snapshot, the
  project's stored processing configuration, or the empty object when none
  is stored; it starts the pipeline of that run and returns the run's id,
  status, progress and creation time.
\<close>

theorem createProcessingRun_success:
  assumes "verifyProject (sys_db w) projectId organizationId = Inr project"
      and "\<forall>r \<in> set (processingRuns (sys_db w)). r_projectId r = projectId \<longrightarrow> r_status r \<noteq> Running"
      and "s \<in> set (sources (sys_db w))" and "s_projectId s = projectId" and "s_status s = Ready"
  shows "createProcessingRun w projectId organizationId now =
     (Inr \<lparr>rc_id = processingRuns_id_seq (sys_db w), rc_status = Pending, rc_progress = 0,
           rc_createdAt = now\<rparr>,
      w\<lparr>sys_db := (sys_db w)\<lparr>processingRuns := processingRuns (sys_db w) @
              [\<lparr>r_id = processingRuns_id_seq (sys_db w), r_projectId = projectId,
                r_status = Pending, r_progress = 0, r_startedAt = None, r_completedAt = None,
                r_error = None, r_errorDetails = None,
                r_config = Some (case find (\<lambda>c. c_projectId c = projectId)
                                        (processingConfigs (sys_db w)) of
                                   None \<Rightarrow> EmptyObject
                                 | Some config \<Rightarrow> ConfigObject (c_config config)),
                r_stats = None, r_createdAt = now, r_updatedAt = now\<rparr>],
            processingRuns_id_seq := Suc (processingRuns_id_seq (sys_db w))\<rparr>,
        pipelines := (pipelines w)(processingRuns_id_seq (sys_db w) \<mapsto> AtStart)\<rparr>)"
proof -
  have a: "find (\<lambda>r. r_projectId r = projectId \<and> r_status r = Running)
             (processingRuns (sys_db w)) = None"
    using assms(2) by (auto simp: find_None_iff)
  have b: "filter (\<lambda>s. s_projectId s = projectId \<and> s_status s = Ready) (sources (sys_db w)) \<noteq> []"
    using assms(3-5) by (auto simp: filter_empty_conv)
  show ?thesis
    using b
    by (simp add: createProcessingRun_def createProcessingRun_checks_def assms(1) a
        createProcessingRun_insert_def insert_run_def Let_def split: option.splits)
qed

theorem createProcessingRun_success_witness:
  "verifyProject (sys_db exampleSystem) 1 1
     = Inr \<lparr>p_id = 1, p_name = ''Support'', p_organizationId = 1, p_deletedAt = None\<rparr>
   \<and> fst (createProcessingRun exampleSystem 1 1 1000)
       = Inr \<lparr>rc_id = 1, rc_status = Pending, rc_progress = 0, rc_createdAt = 1000\<rparr>
   \<and> map r_config (processingRuns (sys_db (snd (createProcessingRun exampleSystem 1 1 1000))))
       = [Some (ConfigObject (defaultConfig\<lparr>outputFormat := Qa\<rparr>))]"
  using createProcessingRun_success [of exampleSystem 1 1 "\<lparr>p_id = 1, p_name = ''Support'', p_organizationId = 1, p_deletedAt = None\<rparr>"
      "\<lparr>s_id = 1, s_name = ''Desk'', s_type = Teamwork, s_status = Ready, s_projectId = 1,
          s_lastSyncAt = None, s_recordCount = None, s_updatedAt = 0\<rparr>" 1000]
  by (simp add: exampleSystem_def exampleDb_def verifyProject_def)

text \<open>
  C5 as stated fails: project 2 has no stored configuration;
  \<open>getProcessingConfig\<close> answers with the hard-coded default, but the run
  created for it carries the empty object, not that default.
\<close>

theorem default_snapshot_counterexample:
  "getProcessingConfig exampleDb 2 2 = Inr defaultConfig
   \<and> fst (createProcessingRun exampleSystem 2 2 1000)
       = Inr \<lparr>rc_id = 1, rc_status = Pending, rc_progress = 0, rc_createdAt = 1000\<rparr>
   \<and> map r_config (processingRuns (sys_db (snd (createProcessingRun exampleSystem 2 2 1000))))
       = [Some EmptyObject]
   \<and> Some EmptyObject \<noteq> Some (ConfigObject defaultConfig)"
  by (simp add: createProcessingRun_def createProcessingRun_checks_def
      createProcessingRun_insert_def insert_run_def Let_def getProcessingConfig_def
      exampleSystem_def exampleDb_def verifyProject_def)

section \<open>Synchronising a source\<close>

text \<open>
  C10. For a source visible to the caller: when its type is not
  \<^verbatim>\<open>teamwork\<close>, \<open>triggerSync\<close> fails with the \<^verbatim>\<open>BadRequestError\<close>
  "Only Teamwork sources can be synced", changes nothing and sets no timer;
  when it is \<^verbatim>\<open>teamwork\<close>, \<open>triggerSync\<close> sets the status to
  \<^verbatim>\<open>syncing\<close> and sets one timer of 2000 ms whose callback sets the status
  to \<^verbatim>\<open>ready\<close> with record count 100.
\<close>

theorem triggerSync_by_type:
  assumes "verifySource db sourceId organizationId = Inr source"
  shows "(s_type source \<noteq> Teamwork \<longrightarrow>
            triggerSync db sourceId organizationId now
              = (Inl (BadRequestError ''Only Teamwork sources can be synced''), db, []))
       \<and> (s_type source = Teamwork \<longrightarrow>
            (case triggerSync db sourceId organizationId now of
               (result, db', timers) \<Rightarrow>
                 result = Inr ''Sync started'' \<and> timers = [(2000, sourceId)]
               \<and> verifySource db' sourceId organizationId
                   = Inr (source\<lparr>s_status := Syncing, s_updatedAt := now\<rparr>)
               \<and> verifySource (syncCompleted sourceId later db') sourceId organizationId
                   = Inr (source\<lparr>s_status := Ready, s_lastSyncAt := Some later,
                            s_recordCount := Some 100, s_updatedAt := later\<rparr>)))"
proof -
  from assms have f: "find (\<lambda>s. s_id s = sourceId) (sources db) = Some source"
    by (rule verifySource_Inr_find)
  let ?f1 = "\<lambda>s. s\<lparr>s_status := Syncing, s_updatedAt := now\<rparr>"
  let ?f2 = "\<lambda>s. s\<lparr>s_status := Ready, s_lastSyncAt := Some later,
                            s_recordCount := Some 100, s_updatedAt := later\<rparr>"
  have u1: "find (\<lambda>s. s_id s = sourceId)
        (map (\<lambda>s. if s_id s = sourceId then ?f1 s else s) (sources db)) = Some (?f1 source)"
    using find_map_update [OF f, of ?f1] by simp
  have u2: "find (\<lambda>s. s_id s = sourceId)
        (map (\<lambda>s. if s_id s = sourceId then ?f2 s else s)
           (map (\<lambda>s. if s_id s = sourceId then ?f1 s else s) (sources db)))
      = Some (?f2 (?f1 source))"
    using find_map_update [OF u1, of ?f2] by simp
  have u2': "find (\<lambda>s. s_id s = sourceId)
        (map ((\<lambda>s. if s_id s = sourceId then ?f2 s else s) \<circ>
           (\<lambda>s. if s_id s = sourceId then ?f1 s else s)) (sources db))
      = Some (?f2 (?f1 source))"
    using u2 by simp
  show ?thesis
    using assms f u1 u2'
    by (auto simp: triggerSync_def syncCompleted_def update_source_def verifySource_def
        split: option.splits if_splits)
qed

theorem triggerSync_by_type_witness:
  "verifySource exampleDb 2 2
     = Inr \<lparr>s_id = 2, s_name = ''Upload'', s_type = File, s_status = Ready, s_projectId = 2,
            s_lastSyncAt = None, s_recordCount = None, s_updatedAt = 0\<rparr>
   \<and> triggerSync exampleDb 2 2 1000
       = (Inl (BadRequestError ''Only Teamwork sources can be synced''), exampleDb, [])
   \<and> verifySource exampleDb 3 1
       = Inr \<lparr>s_id = 3, s_name = ''Old desk'', s_type = Teamwork, s_status = SourcePending,
              s_projectId = 3, s_lastSyncAt = None, s_recordCount = None, s_updatedAt = 0\<rparr>
   \<and> fst (triggerSync exampleDb 3 1 1000) = Inr ''Sync started''
   \<and> map s_status (sources (fst (snd (triggerSync exampleDb 3 1 1000))))
       = [Ready, Ready, Syncing]
   \<and> map (\<lambda>s. (s_status s, s_recordCount s))
        (sources (syncCompleted 3 3000 (fst (snd (triggerSync exampleDb 3 1 1000)))))
       = [(Ready, None), (Ready, None), (Ready, Some 100)]"
  using triggerSync_by_type [of exampleDb 2 2
      "\<lparr>s_id = 2, s_name = ''Upload'', s_type = File, s_status = Ready, s_projectId = 2,
            s_lastSyncAt = None, s_recordCount = None, s_updatedAt = 0\<rparr>" 1000 3000]
    triggerSync_by_type [of exampleDb 3 1
      "\<lparr>s_id = 3, s_name = ''Old desk'', s_type = Teamwork, s_status = SourcePending,
              s_projectId = 3, s_lastSyncAt = None, s_recordCount = None, s_updatedAt = 0\<rparr>"
      1000 3000]
  by (simp add: exampleDb_def verifySource_def triggerSync_def syncCompleted_def
      update_source_def)

section \<open>The invariant of the running system\<close>

lemma map_update_other:
  "\<forall>x \<in> set xs. k x \<noteq> i \<Longrightarrow> map (\<lambda>x. if k x = i then f x else x) xs = xs"
  by (induction xs) auto

lemma dataset_count_update_run [simp]:
  "dataset_count (update_run runId f db) i = dataset_count db i"
  by (simp add: dataset_count_def update_run_def)

lemma map_key_update:
  "(\<And>x. k (f x) = k x) \<Longrightarrow> map k (map (\<lambda>x. if k x = i then f x else x) xs) = map k xs"
  by (induction xs) simp_all

lemma run_ids_update_run:
  "(\<And>r. r_id (f r) = r_id r) \<Longrightarrow>
     map r_id (processingRuns (update_run runId f db)) = map r_id (processingRuns db)"
  by (simp add: update_run_def map_key_update del: map_map)

lemma datasets_update_run [simp]: "datasets (update_run runId f db) = datasets db"
  by (simp add: update_run_def)

lemma consistent_inflight [simp]:
  "consistent (w\<lparr>inflight := q\<rparr>) = consistent w"
  by (simp add: consistent_def)

lemma initial_consistent: "initial w \<Longrightarrow> consistent w"
  by (simp add: initial_def consistent_def)

lemma consistent_update:
  assumes c: "consistent w"
    and p: "pipelines w runId = Some pos"
    and idf: "\<And>r. r_id (f r) = r_id r"
    and ok: "\<And>r n. r \<in> set (processingRuns (sys_db w)) \<Longrightarrow> r_id r = runId \<Longrightarrow>
               run_ok n pos r \<Longrightarrow> run_ok n pos' (f r)"
  shows "consistent (w\<lparr>sys_db := update_run runId f (sys_db w),
                       pipelines := (pipelines w)(runId \<mapsto> pos')\<rparr>)"
proof -
  let ?g = "\<lambda>r. if r_id r = runId then f r else r"
  have gid: "r_id (?g r) = r_id r" for r by (simp add: idf)
  have ids: "map r_id (processingRuns (update_run runId f (sys_db w)))
      = map r_id (processingRuns (sys_db w))"
    by (rule run_ids_update_run) (rule idf)
  have img: "r_id ` set (processingRuns (update_run runId f (sys_db w)))
      = r_id ` set (processingRuns (sys_db w))"
    using arg_cong [OF ids, of set] by (simp only: set_map)
  have rows: "((pipelines w)(runId \<mapsto> pos')) (r_id (?g r)) \<noteq> None
        \<and> run_ok (dataset_count (sys_db w) (r_id (?g r)))
             (the (((pipelines w)(runId \<mapsto> pos')) (r_id (?g r)))) (?g r)"
    if "r \<in> set (processingRuns (sys_db w))" for r
  proof (cases "r_id r = runId")
    case True
    from c that have "run_ok (dataset_count (sys_db w) (r_id r)) (the (pipelines w (r_id r))) r"
      by (simp add: consistent_def)
    with True p have "run_ok (dataset_count (sys_db w) runId) pos r" by simp
    from ok [OF that True this] True show ?thesis by (simp add: idf)
  next
    case False
    from c that have "pipelines w (r_id r) \<noteq> None
        \<and> run_ok (dataset_count (sys_db w) (r_id r)) (the (pipelines w (r_id r))) r"
      by (simp add: consistent_def)
    with False show ?thesis by simp
  qed
  have 1: "distinct (map r_id (processingRuns (update_run runId f (sys_db w))))"
    using c by (simp add: ids consistent_def)
  have 2: "\<forall>r \<in> set (processingRuns (update_run runId f (sys_db w))).
             r_id r < processingRuns_id_seq (update_run runId f (sys_db w))"
    using c by (auto simp: update_run_def consistent_def idf)
  have 3: "\<forall>r \<in> set (processingRuns (update_run runId f (sys_db w))).
        ((pipelines w)(runId \<mapsto> pos')) (r_id r) \<noteq> None
        \<and> run_ok (dataset_count (sys_db w) (r_id r))
             (the (((pipelines w)(runId \<mapsto> pos')) (r_id r))) r"
  proof
    fix r' assume "r' \<in> set (processingRuns (update_run runId f (sys_db w)))"
    then obtain r where r: "r \<in> set (processingRuns (sys_db w))" and r': "r' = ?g r"
      by (auto simp: update_run_def)
    show "((pipelines w)(runId \<mapsto> pos')) (r_id r') \<noteq> None
        \<and> run_ok (dataset_count (sys_db w) (r_id r'))
             (the (((pipelines w)(runId \<mapsto> pos')) (r_id r'))) r'"
      unfolding r' by (rule rows [OF r])
  qed
  have 4: "\<forall>i. ((pipelines w)(runId \<mapsto> pos')) i \<noteq> None \<longrightarrow>
             i \<in> r_id ` set (processingRuns (update_run runId f (sys_db w)))"
    using c p by (auto simp: img consistent_def)
  have 5: "\<forall>d \<in> set (datasets (update_run runId f (sys_db w))).
             d_runId d \<in> r_id ` set (processingRuns (update_run runId f (sys_db w)))"
    using c by (simp add: img consistent_def)
  show ?thesis
    unfolding consistent_def using 1 2 3 4 5 by simp
qed

lemma update_run_absent:
  "\<forall>r \<in> set (processingRuns db). r_id r \<noteq> runId \<Longrightarrow> update_run runId f db = db"
  by (simp add: update_run_def map_update_other)

lemma consistent_no_pipeline:
  assumes "consistent w" and "pipelines w runId = None"
  shows "\<forall>r \<in> set (processingRuns (sys_db w)). r_id r \<noteq> runId"
  using assms by (auto simp: consistent_def)

lemma run_ok_cancelled:
  "run_ok n pos r \<Longrightarrow>
     run_ok n pos (r\<lparr>r_status := Cancelled, r_completedAt := Some now, r_updatedAt := now\<rparr>)"
  by (cases pos) simp_all

lemma consistent_cancelRun_update:
  assumes c: "consistent w"
  shows "consistent (w\<lparr>sys_db := cancelRun_update runId now (sys_db w)\<rparr>)"
proof (cases "pipelines w runId")
  case None
  with c have "cancelRun_update runId now (sys_db w) = sys_db w"
    unfolding cancelRun_update_def by (intro update_run_absent consistent_no_pipeline)
  with c show ?thesis by simp
next
  case (Some pos)
  have "consistent (w\<lparr>sys_db := update_run runId
           (\<lambda>r. r\<lparr>r_status := Cancelled, r_completedAt := Some now, r_updatedAt := now\<rparr>) (sys_db w),
         pipelines := (pipelines w)(runId \<mapsto> pos)\<rparr>)"
    by (rule consistent_update [OF c Some]) (simp_all add: run_ok_cancelled)
  moreover have "(pipelines w)(runId \<mapsto> pos) = pipelines w"
    using Some by (rule map_upd_triv)
  ultimately show ?thesis by (simp add: cancelRun_update_def)
qed

lemma consistent_insert_run:
  assumes c: "consistent w"
  shows "consistent (snd (createProcessingRun_insert projectId config now w))"
proof -
  let ?n = "processingRuns_id_seq (sys_db w)"
  have fresh: "\<forall>r \<in> set (processingRuns (sys_db w)). r_id r \<noteq> ?n"
    using c by (auto simp: consistent_def)
  have nods: "dataset_count (sys_db w) ?n = 0"
    using c fresh by (auto simp: consistent_def dataset_count_def filter_empty_conv)
  show ?thesis
    using c fresh nods
    by (auto simp: consistent_def createProcessingRun_insert_def insert_run_def Let_def
        dataset_count_def less_Suc_eq)
qed

lemma dataset_count_zero_no_dataset:
  "dataset_count db runId = 0 \<Longrightarrow> \<not> list_ex (\<lambda>d. d_runId d = runId) (datasets db)"
  by (auto simp: dataset_count_def list_ex_iff filter_empty_conv)

lemma dataset_count_append:
  "dataset_count (db\<lparr>datasets := datasets db @ [d], datasets_id_seq := k\<rparr>) i
     = dataset_count db i + (if d_runId d = i then 1 else 0)"
  by (simp add: dataset_count_def)

lemma consistent_add_dataset:
  assumes c: "consistent w" and p: "pipelines w runId = Some AtInsert"
    and d: "d_runId d = runId"
  shows "consistent (w\<lparr>sys_db := (sys_db w)\<lparr>datasets := datasets (sys_db w) @ [d],
                                               datasets_id_seq := k\<rparr>,
                       pipelines := (pipelines w)(runId \<mapsto> Finished)\<rparr>)"
    (is "consistent ?w'")
proof -
  have runs: "processingRuns (sys_db ?w') = processingRuns (sys_db w)" by simp
  have seq: "processingRuns_id_seq (sys_db ?w') = processingRuns_id_seq (sys_db w)" by simp
  have known: "runId \<in> r_id ` set (processingRuns (sys_db w))"
    using c p by (simp add: consistent_def)
  have 1: "distinct (map r_id (processingRuns (sys_db ?w')))"
    using c by (simp add: consistent_def)
  have 2: "\<forall>r \<in> set (processingRuns (sys_db ?w')). r_id r < processingRuns_id_seq (sys_db ?w')"
    using c by (simp add: consistent_def)
  have 3: "\<forall>r \<in> set (processingRuns (sys_db ?w')).
        pipelines ?w' (r_id r) \<noteq> None
        \<and> run_ok (dataset_count (sys_db ?w') (r_id r)) (the (pipelines ?w' (r_id r))) r"
  proof
    fix r assume "r \<in> set (processingRuns (sys_db ?w'))"
    then have r: "r \<in> set (processingRuns (sys_db w))" by simp
    with c have old: "pipelines w (r_id r) \<noteq> None
        \<and> run_ok (dataset_count (sys_db w) (r_id r)) (the (pipelines w (r_id r))) r"
      by (simp add: consistent_def)
    show "pipelines ?w' (r_id r) \<noteq> None
        \<and> run_ok (dataset_count (sys_db ?w') (r_id r)) (the (pipelines ?w' (r_id r))) r"
    proof (cases "r_id r = runId")
      case True
      with old p have "run_ok (dataset_count (sys_db w) runId) AtInsert r" by simp
      then show ?thesis using True d by (simp add: dataset_count_append)
    next
      case False
      with old d show ?thesis by (simp add: dataset_count_append)
    qed
  qed
  have 4: "\<forall>i. pipelines ?w' i \<noteq> None \<longrightarrow> i \<in> r_id ` set (processingRuns (sys_db ?w'))"
    using c known by (simp add: consistent_def)
  have 5: "\<forall>x \<in> set (datasets (sys_db ?w')).
             d_runId x \<in> r_id ` set (processingRuns (sys_db ?w'))"
    using c known d by (simp add: consistent_def)
  show ?thesis
    unfolding consistent_def using 1 2 3 4 5 by blast
qed

lemma consistent_insert_dataset:
  assumes c: "consistent w" and p: "pipelines w runId = Some AtInsert"
  shows "consistent (pipeline_step runId now w)"
proof -
  from c p obtain r where r: "r \<in> set (processingRuns (sys_db w))" and rid: "r_id r = runId"
    by (auto simp: consistent_def)
  from c r rid p have ok: "run_ok (dataset_count (sys_db w) runId) AtInsert r"
    by (auto simp: consistent_def)
  then have zero: "dataset_count (sys_db w) runId = 0" by simp
  then have no: "\<not> list_ex (\<lambda>d. d_runId d = runId) (datasets (sys_db w))"
    by (rule dataset_count_zero_no_dataset)
  define d where "d = \<lparr>d_id = datasets_id_seq (sys_db w), d_runId = runId,
               d_name = ''Dataset from Run '' @ show_nat runId,
               d_format = ''conversational'', d_filePath = None, d_fileSize = None,
               d_recordCount = Some 100,
               d_stats = Some \<lparr>totalConversations = 50, avgConversationLength = 9 / 2,
                                uniqueSpeakers = 25\<rparr>,
               d_createdAt = now, d_updatedAt = now\<rparr>"
  have d: "d_runId d = runId" by (simp add: d_def)
  have ex: "list_ex (\<lambda>r. r_id r = runId) (processingRuns (sys_db w))"
    using r rid by (auto simp: list_ex_iff)
  have ins: "insert_dataset runId now (sys_db w)
      = (Inr (), (sys_db w)\<lparr>datasets := datasets (sys_db w) @ [d],
                            datasets_id_seq := Suc (datasets_id_seq (sys_db w))\<rparr>)"
    using no ex unfolding insert_dataset_def d_def by (simp only: if_False if_True not_True_eq_False)
  have step: "pipeline_step runId now w
      = w\<lparr>sys_db := (sys_db w)\<lparr>datasets := datasets (sys_db w) @ [d],
                                 datasets_id_seq := Suc (datasets_id_seq (sys_db w))\<rparr>,
           pipelines := (pipelines w)(runId \<mapsto> Finished)\<rparr>"
    unfolding pipeline_step_def by (simp add: p ins)
  show ?thesis
    unfolding step by (rule consistent_add_dataset [OF c p d])
qed

lemma consistent_pipeline_step:
  assumes c: "consistent w"
  shows "consistent (pipeline_step runId now w)"
proof (cases "pipelines w runId")
  case None
  then show ?thesis using c by (simp add: pipeline_step_def)
next
  case (Some pos)
  show ?thesis
  proof (cases pos)
    case AtStart
    have "consistent (w\<lparr>sys_db := update_run runId
             (\<lambda>r. r\<lparr>r_status := Running, r_startedAt := Some now\<rparr>) (sys_db w),
           pipelines := (pipelines w)(runId \<mapsto> AtLoop 10)\<rparr>)"
      by (rule consistent_update [OF c Some]) (simp_all add: AtStart)
    then show ?thesis using Some AtStart by (simp add: pipeline_step_def)
  next
    case (AtLoop p)
    show ?thesis
    proof (cases "p \<le> 100")
      case True
      have "consistent (w\<lparr>sys_db := update_run runId (\<lambda>r. r\<lparr>r_progress := p\<rparr>) (sys_db w),
             pipelines := (pipelines w)(runId \<mapsto> AtLoop (p + 10))\<rparr>)"
        by (rule consistent_update [OF c Some]) (use True in \<open>simp_all add: AtLoop\<close>)
      then show ?thesis using Some AtLoop True by (simp add: pipeline_step_def)
    next
      case False
      have "consistent (w\<lparr>sys_db := update_run runId
               (\<lambda>r. r\<lparr>r_status := Completed, r_progress := 100, r_completedAt := Some now,
                       r_stats := Some finalStats\<rparr>) (sys_db w),
             pipelines := (pipelines w)(runId \<mapsto> AtInsert)\<rparr>)"
        by (rule consistent_update [OF c Some]) (simp_all add: AtLoop)
      then show ?thesis using Some AtLoop False by (simp add: pipeline_step_def)
    qed
  next
    case AtInsert
    with c Some show ?thesis by (simp add: consistent_insert_dataset)
  next
    case Finished
    have "(pipelines w)(runId \<mapsto> Finished) = pipelines w"
      using Some Finished by (simp add: map_upd_triv)
    then show ?thesis using c Some Finished by (simp add: pipeline_step_def)
  next
    case (Rejected e)
    have "(pipelines w)(runId \<mapsto> Rejected e) = pipelines w"
      using Some Rejected by (simp add: map_upd_triv)
    then show ?thesis using c Some Rejected by (simp add: pipeline_step_def)
  qed
qed

lemma consistent_resume: "consistent w \<Longrightarrow> consistent (resume req now w)"
  by (cases req) (simp_all add: consistent_cancelRun_update consistent_insert_run)

lemma consistent_step: "consistent w \<Longrightarrow> consistent (step w e)"
  by (cases e)
    (simp_all add: consistent_resume consistent_pipeline_step split: sum.splits)

lemma consistent_run_events: "consistent w \<Longrightarrow> consistent (run_events w es)"
  unfolding run_events_def by (induction es arbitrary: w) (simp_all add: consistent_step)

section \<open>Progress along a step\<close>

lemma same_id_same_run:
  assumes "consistent w" and "r \<in> set (processingRuns (sys_db w))"
    and "r' \<in> set (processingRuns (sys_db w))" and "r_id r' = r_id r"
  shows "r' = r"
  using assms by (auto simp: consistent_def distinct_map dest: inj_onD)

lemma progress_update_run:
  assumes c: "consistent w"
    and idf: "\<And>x. r_id (f x) = r_id x"
    and up: "\<And>x. x \<in> set (processingRuns (sys_db w)) \<Longrightarrow> r_id x = runId \<Longrightarrow>
               r_progress x \<le> r_progress (f x)"
    and r: "r \<in> set (processingRuns (sys_db w))"
    and r': "r' \<in> set (processingRuns (update_run runId f (sys_db w)))"
    and same: "r_id r' = r_id r"
  shows "r_progress r \<le> r_progress r'"
proof -
  from r' obtain x where x: "x \<in> set (processingRuns (sys_db w))"
    and r'x: "r' = (if r_id x = runId then f x else x)"
    by (auto simp: update_run_def)
  have "r_id x = r_id r" using same r'x by (simp add: idf split: if_splits)
  with c r x have "x = r" by (simp add: same_id_same_run)
  then show ?thesis using r'x up [OF r] by (simp split: if_splits)
qed

lemma progress_resume:
  assumes c: "consistent w"
    and r: "r \<in> set (processingRuns (sys_db w))"
    and r': "r' \<in> set (processingRuns (sys_db (resume req now w)))"
    and same: "r_id r' = r_id r"
  shows "r_progress r \<le> r_progress r'"
proof (cases req)
  case (CancelUpdate runId)
  with r' have "r' \<in> set (processingRuns (update_run runId
      (\<lambda>r. r\<lparr>r_status := Cancelled, r_completedAt := Some now, r_updatedAt := now\<rparr>) (sys_db w)))"
    by (simp add: cancelRun_update_def)
  from progress_update_run [OF c _ _ r this same] show ?thesis by simp
next
  case (RunInsert projectId config)
  from c r have "r_id r < processingRuns_id_seq (sys_db w)" by (simp add: consistent_def)
  with r' same RunInsert have "r' \<in> set (processingRuns (sys_db w))"
    by (auto simp: createProcessingRun_insert_def insert_run_def Let_def)
  with c r same have "r' = r" by (simp add: same_id_same_run)
  then show ?thesis by simp
qed

lemma run_at_position:
  assumes "consistent w" and "pipelines w runId = Some pos"
    and "x \<in> set (processingRuns (sys_db w))" and "r_id x = runId"
  shows "run_ok (dataset_count (sys_db w) runId) pos x"
  using assms by (auto simp: consistent_def)

lemma pipeline_step_start:
  "pipelines w runId = Some AtStart \<Longrightarrow>
   pipeline_step runId now w
     = w\<lparr>sys_db := update_run runId (\<lambda>r. r\<lparr>r_status := Running, r_startedAt := Some now\<rparr>)
                      (sys_db w),
         pipelines := (pipelines w)(runId \<mapsto> AtLoop 10)\<rparr>"
  by (simp add: pipeline_step_def)

lemma pipeline_step_progress:
  "pipelines w runId = Some (AtLoop p) \<Longrightarrow> p \<le> 100 \<Longrightarrow>
   pipeline_step runId now w
     = w\<lparr>sys_db := update_run runId (\<lambda>r. r\<lparr>r_progress := p\<rparr>) (sys_db w),
         pipelines := (pipelines w)(runId \<mapsto> AtLoop (p + 10))\<rparr>"
  by (simp add: pipeline_step_def)

lemma pipeline_step_complete:
  "pipelines w runId = Some (AtLoop p) \<Longrightarrow> \<not> p \<le> 100 \<Longrightarrow>
   pipeline_step runId now w
     = w\<lparr>sys_db := update_run runId
             (\<lambda>r. r\<lparr>r_status := Completed, r_progress := 100, r_completedAt := Some now,
                     r_stats := Some finalStats\<rparr>) (sys_db w),
         pipelines := (pipelines w)(runId \<mapsto> AtInsert)\<rparr>"
  by (simp add: pipeline_step_def)

lemma pipeline_step_runs_insert:
  "pipelines w runId = Some AtInsert \<Longrightarrow>
   processingRuns (sys_db (pipeline_step runId now w)) = processingRuns (sys_db w)"
  by (simp add: pipeline_step_def insert_dataset_def)

lemma pipeline_step_idle:
  "pipelines w runId = None \<or> pipelines w runId = Some Finished
     \<or> pipelines w runId = Some (Rejected e) \<Longrightarrow>
   sys_db (pipeline_step runId now w) = sys_db w"
  by (auto simp: pipeline_step_def)

lemma progress_pipeline_step:
  assumes c: "consistent w"
    and r: "r \<in> set (processingRuns (sys_db w))"
    and r': "r' \<in> set (processingRuns (sys_db (pipeline_step runId now w)))"
    and same: "r_id r' = r_id r"
  shows "r_progress r \<le> r_progress r'"
proof -
  have unchanged: ?thesis if "processingRuns (sys_db (pipeline_step runId now w))
      = processingRuns (sys_db w)"
  proof -
    from r' that have "r' \<in> set (processingRuns (sys_db w))" by simp
    with c r same have "r' = r" by (simp add: same_id_same_run)
    then show ?thesis by simp
  qed
  show ?thesis
  proof (cases "pipelines w runId")
    case None
    then have "sys_db (pipeline_step runId now w) = sys_db w"
      by (simp add: pipeline_step_idle)
    then show ?thesis by (simp add: unchanged)
  next
    case (Some pos)
    note at = run_at_position [OF c Some]
    show ?thesis
    proof (cases pos)
      case AtStart
      let ?f = "\<lambda>r. r\<lparr>r_status := Running, r_startedAt := Some now\<rparr>"
      have eq: "sys_db (pipeline_step runId now w) = update_run runId ?f (sys_db w)"
        using Some AtStart by (simp add: pipeline_step_start)
      show ?thesis
      proof (rule progress_update_run [OF c _ _ r _ same, of ?f runId])
        show "r_id (?f x) = r_id x" for x by simp
        show "r_progress x \<le> r_progress (?f x)" for x by simp
        show "r' \<in> set (processingRuns (update_run runId ?f (sys_db w)))"
          using r' by (simp only: eq)
      qed
    next
      case (AtLoop p)
      show ?thesis
      proof (cases "p \<le> 100")
        case True
        let ?f = "\<lambda>r. r\<lparr>r_progress := p\<rparr>"
        have eq: "sys_db (pipeline_step runId now w) = update_run runId ?f (sys_db w)"
          using Some AtLoop True by (simp add: pipeline_step_progress)
        show ?thesis
        proof (rule progress_update_run [OF c _ _ r _ same, of ?f runId])
          show "r_id (?f x) = r_id x" for x by simp
          show "r_progress x \<le> r_progress (?f x)"
            if "x \<in> set (processingRuns (sys_db w))" and "r_id x = runId" for x
            using at [OF that] AtLoop by simp
          show "r' \<in> set (processingRuns (update_run runId ?f (sys_db w)))"
            using r' by (simp only: eq)
        qed
      next
        case False
        let ?f = "\<lambda>r. r\<lparr>r_status := Completed, r_progress := 100, r_completedAt := Some now,
                  r_stats := Some finalStats\<rparr>"
        have eq: "sys_db (pipeline_step runId now w) = update_run runId ?f (sys_db w)"
          using Some AtLoop False by (simp add: pipeline_step_complete)
        show ?thesis
        proof (rule progress_update_run [OF c _ _ r _ same, of ?f runId])
          show "r_id (?f x) = r_id x" for x by simp
          show "r_progress x \<le> r_progress (?f x)"
            if "x \<in> set (processingRuns (sys_db w))" and "r_id x = runId" for x
            using at [OF that] AtLoop by simp
          show "r' \<in> set (processingRuns (update_run runId ?f (sys_db w)))"
            using r' by (simp only: eq)
        qed
      qed
    next
      case AtInsert
      with Some show ?thesis by (simp add: unchanged pipeline_step_runs_insert)
    next
      case Finished
      with Some have "sys_db (pipeline_step runId now w) = sys_db w"
        by (simp add: pipeline_step_idle)
      then show ?thesis by (simp add: unchanged)
    next
      case (Rejected e)
      with Some have "sys_db (pipeline_step runId now w) = sys_db w"
        using pipeline_step_idle [of w runId e now] by simp
      then show ?thesis by (simp add: unchanged)
    qed
  qed
qed

lemma progress_step:
  assumes c: "consistent w"
    and r: "r \<in> set (processingRuns (sys_db w))"
    and r': "r' \<in> set (processingRuns (sys_db (step w e)))"
    and same: "r_id r' = r_id r"
  shows "r_progress r \<le> r_progress r'"
proof (cases e)
  case (CreateRunRequest projectId organizationId)
  with r' have "r' \<in> set (processingRuns (sys_db w))" by (simp split: sum.splits)
  with c r same have "r' = r" by (simp add: same_id_same_run)
  then show ?thesis by simp
next
  case (CancelRunRequest runId organizationId)
  with r' have "r' \<in> set (processingRuns (sys_db w))" by (simp split: sum.splits)
  with c r same have "r' = r" by (simp add: same_id_same_run)
  then show ?thesis by simp
next
  case (Resume i now)
  show ?thesis
  proof (cases "i < length (inflight w)")
    case True
    let ?w = "w\<lparr>inflight := take i (inflight w) @ drop (Suc i) (inflight w)\<rparr>"
    have "consistent ?w" using c by simp
    moreover have "r \<in> set (processingRuns (sys_db ?w))" using r by simp
    moreover have "r' \<in> set (processingRuns (sys_db (resume (inflight w ! i) now ?w)))"
      using r' Resume True by simp
    ultimately show ?thesis using same by (rule progress_resume)
  next
    case False
    with r' Resume have "r' \<in> set (processingRuns (sys_db w))" by simp
    with c r same have "r' = r" by (simp add: same_id_same_run)
    then show ?thesis by simp
  qed
next
  case (PipelineStep runId now)
  with r' have "r' \<in> set (processingRuns (sys_db (pipeline_step runId now w)))" by simp
  from progress_pipeline_step [OF c r this same] show ?thesis .
qed

lemma run_row_facts:
  assumes c: "consistent w" and r: "r \<in> set (processingRuns (sys_db w))"
  shows "(r_status r = Pending \<longrightarrow> r_progress r = 0)
       \<and> (r_status r = Completed \<longrightarrow> r_progress r = 100)
       \<and> 0 \<le> r_progress r \<and> r_progress r \<le> 100
       \<and> r_status r \<noteq> Failed
       \<and> dataset_count (sys_db w) (r_id r) \<le> 1
       \<and> (0 < dataset_count (sys_db w) (r_id r) \<longleftrightarrow> pipelines w (r_id r) = Some Finished)
       \<and> (0 < dataset_count (sys_db w) (r_id r) \<longrightarrow>
             r_status r \<noteq> Pending \<and> r_status r \<noteq> Running \<and> r_progress r = 100
             \<and> r_stats r = Some finalStats)"
proof -
  from c r obtain pos where p: "pipelines w (r_id r) = Some pos" by (auto simp: consistent_def)
  from run_at_position [OF c p r] have "run_ok (dataset_count (sys_db w) (r_id r)) pos r" by simp
  then show ?thesis using p by (cases pos) auto
qed

lemma run_ids_step:
  "set (map r_id (processingRuns (sys_db w))) \<subseteq> set (map r_id (processingRuns (sys_db (step w e))))"
proof (cases e)
  case (CreateRunRequest projectId organizationId)
  then show ?thesis by (simp split: sum.splits)
next
  case (CancelRunRequest runId organizationId)
  then show ?thesis by (simp split: sum.splits)
next
  case (Resume i now)
  have "set (map r_id (processingRuns (sys_db v)))
      \<subseteq> set (map r_id (processingRuns (sys_db (resume req now v))))" for req v
  proof (cases req)
    case (CancelUpdate runId)
    then show ?thesis
      by (simp add: cancelRun_update_def run_ids_update_run del: set_map)
  next
    case (RunInsert projectId config)
    then show ?thesis
      by (auto simp: createProcessingRun_insert_def insert_run_def Let_def)
  qed
  from this [of "w\<lparr>inflight := take i (inflight w) @ drop (Suc i) (inflight w)\<rparr>" "inflight w ! i"]
  show ?thesis using Resume by simp
next
  case (PipelineStep runId now)
  show ?thesis
  proof (cases "pipelines w runId")
    case None
    then show ?thesis using PipelineStep by (simp add: pipeline_step_def)
  next
    case (Some pos)
    have upd: "set (map r_id (processingRuns (update_run runId f (sys_db w))))
        = set (map r_id (processingRuns (sys_db w)))" if "\<And>r. r_id (f r) = r_id r" for f
      using that by (simp add: run_ids_update_run del: set_map)
    show ?thesis
    proof (cases pos)
      case AtStart
      then show ?thesis using PipelineStep Some
        by (simp add: pipeline_step_start upd del: set_map)
    next
      case (AtLoop p)
      then show ?thesis using PipelineStep Some
        by (cases "p \<le> 100")
          (simp_all add: pipeline_step_progress pipeline_step_complete upd del: set_map)
    next
      case AtInsert
      then show ?thesis using PipelineStep Some by (simp add: pipeline_step_runs_insert)
    next
      case Finished
      then show ?thesis using PipelineStep Some by (simp add: pipeline_step_idle)
    next
      case (Rejected x)
      then show ?thesis using PipelineStep Some pipeline_step_idle [of w runId x now] by simp
    qed
  qed
qed

lemma has_dataset_count: "has_dataset db runId \<longleftrightarrow> 0 < dataset_count db runId"
  by (auto simp: has_dataset_def dataset_count_def list_ex_iff filter_empty_conv)

lemma getRunDataset_NotFound:
  assumes "verifyRun db runId organizationId = Inr run"
  shows "getRunDataset db runId organizationId = Inl (NotFoundError ''Dataset'')
           \<longleftrightarrow> \<not> has_dataset db runId"
proof -
  have "find (\<lambda>d. d_runId d = runId) (datasets db) = None \<longleftrightarrow> \<not> has_dataset db runId"
    by (auto simp: has_dataset_def list_ex_iff find_None_iff)
  then show ?thesis
    using assms by (auto simp: getRunDataset_def split: option.splits)
qed

lemmas example_defs = run_events_def pipelineSteps_def createProcessingRun_checks_def
  createProcessingRun_insert_def insert_run_def Let_def verifyProject_def
  exampleSystem_def exampleDb_def cancelRun_check_def verifyRun_def cancelRun_update_def
  update_run_def pipeline_step_def insert_dataset_def

section \<open>Progress\<close>

text \<open>
  C7. Start from a server with no run and let any sequence of events
  happen: requests checked, their writes executed later in any order,
  pipeline statements in between. Then every run row has progress 0 while
  its status is \<^verbatim>\<open>pending\<close> and progress 100 whenever its status is
  \<^verbatim>\<open>completed\<close>; and whatever event comes next, the row is still there and
  its progress has not decreased (in any status, so in particular while
  \<^verbatim>\<open>running\<close>).
\<close>

theorem progress_follows_pipeline:
  assumes "initial w"
  shows "(\<forall>r \<in> set (processingRuns (sys_db (run_events w es))).
            (r_status r = Pending \<longrightarrow> r_progress r = 0)
          \<and> (r_status r = Completed \<longrightarrow> r_progress r = 100)
          \<and> (\<exists>r' \<in> set (processingRuns (sys_db (step (run_events w es) e))). r_id r' = r_id r)
          \<and> (\<forall>r' \<in> set (processingRuns (sys_db (step (run_events w es) e))).
                r_id r' = r_id r \<longrightarrow> r_progress r \<le> r_progress r'))"
proof
  fix r assume r: "r \<in> set (processingRuns (sys_db (run_events w es)))"
  have c: "consistent (run_events w es)"
    using assms by (intro consistent_run_events initial_consistent)
  have "r_id r \<in> set (map r_id (processingRuns (sys_db (step (run_events w es) e))))"
    using run_ids_step [of "run_events w es" e] r by auto
  then have ex: "\<exists>r' \<in> set (processingRuns (sys_db (step (run_events w es) e))). r_id r' = r_id r"
    by auto
  show "(r_status r = Pending \<longrightarrow> r_progress r = 0)
          \<and> (r_status r = Completed \<longrightarrow> r_progress r = 100)
          \<and> (\<exists>r' \<in> set (processingRuns (sys_db (step (run_events w es) e))). r_id r' = r_id r)
          \<and> (\<forall>r' \<in> set (processingRuns (sys_db (step (run_events w es) e))).
                r_id r' = r_id r \<longrightarrow> r_progress r \<le> r_progress r')"
    using run_row_facts [OF c r] progress_step [OF c r] ex by blast
qed

theorem progress_follows_pipeline_witness:
  "initial exampleSystem
   \<and> map r_status (processingRuns (sys_db (run_events exampleSystem
        ([CreateRunRequest 1 1, Resume 0 1000] @ pipelineSteps 1 [1500, 2000, 2500, 3000]))))
       = [Running]
   \<and> map r_progress (processingRuns (sys_db (run_events exampleSystem
        ([CreateRunRequest 1 1, Resume 0 1000] @ pipelineSteps 1 [1500, 2000, 2500, 3000]))))
       = [30]
   \<and> map r_progress (processingRuns (sys_db (step (run_events exampleSystem
        ([CreateRunRequest 1 1, Resume 0 1000] @ pipelineSteps 1 [1500, 2000, 2500, 3000]))
        (PipelineStep 1 3500))))
       = [40]"
  using progress_follows_pipeline [of exampleSystem
      "[CreateRunRequest 1 1, Resume 0 1000] @ pipelineSteps 1 [1500, 2000, 2500, 3000]"
      "PipelineStep 1 3500"]
  by (simp add: initial_def example_defs)

section \<open>Datasets\<close>

text \<open>
  C3, as amended. In every state reached from a server with no run, for
  every run: a dataset row of the run exists exactly when the run's pipeline
  has executed its dataset insert, the statement after its completion
  update; a run with a dataset is therefore neither \<^verbatim>\<open>pending\<close> nor
  \<^verbatim>\<open>running\<close> and carries progress 100 and the final statistics; no run is
  ever \<^verbatim>\<open>failed\<close>; a run has at most one dataset; and \<open>getRunDataset\<close>, for
  a caller that passes \<open>verifyRun\<close>, fails with
  \<^verbatim>\<open>NotFoundError('Dataset')\<close> exactly when the run has no dataset row.
\<close>

theorem dataset_follows_completion:
  assumes "initial w" and "w' = run_events w es"
  shows "\<forall>r \<in> set (processingRuns (sys_db w')).
           (has_dataset (sys_db w') (r_id r) \<longleftrightarrow> pipelines w' (r_id r) = Some Finished)
         \<and> (has_dataset (sys_db w') (r_id r) \<longrightarrow>
               r_status r \<noteq> Pending \<and> r_status r \<noteq> Running \<and> r_progress r = 100
               \<and> r_stats r = Some finalStats)
         \<and> r_status r \<noteq> Failed
         \<and> dataset_count (sys_db w') (r_id r) \<le> 1
         \<and> (\<forall>organizationId. verifyRun (sys_db w') (r_id r) organizationId = Inr r \<longrightarrow>
               (getRunDataset (sys_db w') (r_id r) organizationId = Inl (NotFoundError ''Dataset'')
                  \<longleftrightarrow> \<not> has_dataset (sys_db w') (r_id r)))"
proof
  fix r assume r: "r \<in> set (processingRuns (sys_db w'))"
  have c: "consistent w'"
    using assms by (simp add: consistent_run_events initial_consistent)
  show "(has_dataset (sys_db w') (r_id r) \<longleftrightarrow> pipelines w' (r_id r) = Some Finished)
         \<and> (has_dataset (sys_db w') (r_id r) \<longrightarrow>
               r_status r \<noteq> Pending \<and> r_status r \<noteq> Running \<and> r_progress r = 100
               \<and> r_stats r = Some finalStats)
         \<and> r_status r \<noteq> Failed
         \<and> dataset_count (sys_db w') (r_id r) \<le> 1
         \<and> (\<forall>organizationId. verifyRun (sys_db w') (r_id r) organizationId = Inr r \<longrightarrow>
               (getRunDataset (sys_db w') (r_id r) organizationId = Inl (NotFoundError ''Dataset'')
                  \<longleftrightarrow> \<not> has_dataset (sys_db w') (r_id r)))"
    using run_row_facts [OF c r] getRunDataset_NotFound [of "sys_db w'" "r_id r" _ r]
    unfolding has_dataset_count by blast
qed

theorem dataset_follows_completion_witness:
  "initial exampleSystem
   \<and> materialisedRun = run_events exampleSystem
        ([CreateRunRequest 1 1, Resume 0 1000]
         @ pipelineSteps 1 [1500, 2000, 2500, 3000, 3500, 4000, 4500, 5000, 5500, 6000, 6500,
                            6501, 6502])
   \<and> map r_id (processingRuns (sys_db materialisedRun)) = [1]
   \<and> has_dataset (sys_db materialisedRun) 1
   \<and> pipelines materialisedRun 1 = Some Finished
   \<and> map r_status (processingRuns (sys_db materialisedRun)) = [Completed]
   \<and> dataset_count (sys_db materialisedRun) 1 = 1"
  using dataset_follows_completion [of exampleSystem materialisedRun
      "[CreateRunRequest 1 1, Resume 0 1000]
         @ pipelineSteps 1 [1500, 2000, 2500, 3000, 3500, 4000, 4500, 5000, 5500, 6000, 6500,
                            6501, 6502]"]
  by (simp add: initial_def materialisedRun_def completedRun_def createdRun_def example_defs
      has_dataset_def dataset_count_def)

text \<open>
  C3 as stated fails in both directions. After the completion update and
  before the dataset insert, run 1 is \<^verbatim>\<open>completed\<close> and has no dataset
  (\<open>getRunDataset\<close> answers \<^verbatim>\<open>NotFoundError('Dataset')\<close>). And when the
  update of a cancel request is executed after the pipeline has finished,
  run 1 ends \<^verbatim>\<open>cancelled\<close> with a dataset attached.
\<close>

theorem completed_without_dataset_counterexample:
  "map r_status (processingRuns (sys_db completedRun)) = [Completed]
   \<and> \<not> has_dataset (sys_db completedRun) 1
   \<and> getRunDataset (sys_db completedRun) 1 1 = Inl (NotFoundError ''Dataset'')
   \<and> map r_status (processingRuns (sys_db lateCancel)) = [Cancelled]
   \<and> has_dataset (sys_db lateCancel) 1"
  by (simp add: completedRun_def lateCancel_def createdRun_def example_defs has_dataset_def
      getRunDataset_def)

text \<open>
  C8, as amended. When the pipeline executes its dataset insert for an
  existing run that has no dataset, the run has exactly one dataset
  afterwards: the row with the next dataset id, the name "Dataset from Run"
  followed by the run id, the output format \<^verbatim>\<open>conversational\<close> whatever
  the run's configuration snapshot says, record count 100 (the
  processed-records count of the final statistics) and the fixed statistics
  50, 4.5 and 25. Executing the insert a second time for the same run is
  rejected by the unique constraint on \<^verbatim>\<open>run_id\<close>: it adds no dataset row
  and changes nothing but the id sequence, of which it consumes one value.
  The same holds for any run that already has a dataset; and for a run id
  without a run row the insert is rejected by the foreign key, again
  changing nothing but the id sequence.
\<close>

theorem dataset_insert_once:
  "(\<not> has_dataset db runId \<and> list_ex (\<lambda>r. r_id r = runId) (processingRuns db) \<longrightarrow>
      simulateProcessing_step runId now AtInsert db
        = (Finished,
           db\<lparr>datasets := datasets db @
                 [\<lparr>d_id = datasets_id_seq db, d_runId = runId,
                   d_name = ''Dataset from Run '' @ show_nat runId,
                   d_format = ''conversational'', d_filePath = None, d_fileSize = None,
                   d_recordCount = Some (processedRecords finalStats),
                   d_stats = Some \<lparr>totalConversations = 50, avgConversationLength = 9 / 2,
                                    uniqueSpeakers = 25\<rparr>,
                   d_createdAt = now, d_updatedAt = now\<rparr>],
               datasets_id_seq := Suc (datasets_id_seq db)\<rparr>)
    \<and> dataset_count (snd (simulateProcessing_step runId now AtInsert db)) runId = 1
    \<and> simulateProcessing_step runId later AtInsert
          (snd (simulateProcessing_step runId now AtInsert db))
        = (Rejected (UniqueViolation ''datasets_run_id_unique''),
           (snd (simulateProcessing_step runId now AtInsert db))
             \<lparr>datasets_id_seq := Suc (Suc (datasets_id_seq db))\<rparr>))
   \<and> (has_dataset db runId \<longrightarrow>
        simulateProcessing_step runId now AtInsert db
          = (Rejected (UniqueViolation ''datasets_run_id_unique''),
             db\<lparr>datasets_id_seq := Suc (datasets_id_seq db)\<rparr>))
   \<and> (\<not> has_dataset db runId \<and> \<not> list_ex (\<lambda>r. r_id r = runId) (processingRuns db) \<longrightarrow>
        simulateProcessing_step runId now AtInsert db
          = (Rejected (ForeignKeyViolation ''datasets_run_id_processing_runs_id_fk''),
             db\<lparr>datasets_id_seq := Suc (datasets_id_seq db)\<rparr>))"
proof -
  have zero: "filter (\<lambda>d. d_runId d = runId) (datasets db) = []"
    if "\<not> list_ex (\<lambda>d. d_runId d = runId) (datasets db)"
    using that by (auto simp: list_ex_iff filter_empty_conv)
  show ?thesis
    using zero
    by (auto simp: has_dataset_def insert_dataset_def dataset_count_def finalStats_def)
qed

theorem dataset_insert_once_witness:
  "\<not> has_dataset (sys_db completedRun) 1
   \<and> list_ex (\<lambda>r. r_id r = 1) (processingRuns (sys_db completedRun))
   \<and> fst (simulateProcessing_step 1 6502 AtInsert (sys_db completedRun)) = Finished
   \<and> map d_runId (datasets (snd (simulateProcessing_step 1 6502 AtInsert (sys_db completedRun))))
       = [1]
   \<and> fst (simulateProcessing_step 1 7000 AtInsert
         (snd (simulateProcessing_step 1 6502 AtInsert (sys_db completedRun))))
       = Rejected (UniqueViolation ''datasets_run_id_unique'')
   \<and> has_dataset (sys_db materialisedRun) 1
   \<and> simulateProcessing_step 1 7000 AtInsert (sys_db materialisedRun)
       = (Rejected (UniqueViolation ''datasets_run_id_unique''),
          (sys_db materialisedRun)\<lparr>datasets_id_seq := 3\<rparr>)
   \<and> \<not> list_ex (\<lambda>r. r_id r = 5) (processingRuns (sys_db completedRun))
   \<and> simulateProcessing_step 5 7000 AtInsert (sys_db completedRun)
       = (Rejected (ForeignKeyViolation ''datasets_run_id_processing_runs_id_fk''),
          (sys_db completedRun)\<lparr>datasets_id_seq := 2\<rparr>)"
  using dataset_insert_once [of "sys_db completedRun" 1 6502 7000]
    dataset_insert_once [of "sys_db materialisedRun" 1 7000 7000]
    dataset_insert_once [of "sys_db completedRun" 5 7000 7000]
  by (simp add: materialisedRun_def completedRun_def createdRun_def example_defs has_dataset_def)

text \<open>
  C8 as stated fails: the configuration snapshot of run 1 has output format
  \<^verbatim>\<open>qa\<close>, and the dataset created for it has format
  \<^verbatim>\<open>conversational\<close>.
\<close>

theorem dataset_format_counterexample:
  "map r_config (processingRuns (sys_db materialisedRun))
     = [Some (ConfigObject (defaultConfig\<lparr>outputFormat := Qa\<rparr>))]
   \<and> outputFormat (defaultConfig\<lparr>outputFormat := Qa\<rparr>) = Qa
   \<and> formatName Qa = ''qa''
   \<and> map d_runId (datasets (sys_db materialisedRun)) = [1]
   \<and> map d_format (datasets (sys_db materialisedRun)) = [''conversational'']"
  by (simp add: materialisedRun_def completedRun_def createdRun_def example_defs)

section \<open>Cancellation against the pipeline\<close>

text \<open>
  C2. The claim says that no later step changes a terminal status. The
  code does: run 1 is cancelled while pending (\<open>cancelRun\<close> succeeds and the
  status is \<^verbatim>\<open>cancelled\<close>); the first statement of its pipeline then sets
  the status to \<^verbatim>\<open>running\<close>, and when the pipeline has finished the status
  is \<^verbatim>\<open>completed\<close> and the run has a dataset.
\<close>

theorem cancelled_run_overwritten:
  "cancelRun (sys_db createdRun) 1 1 1200 = (Inr (), sys_db cancelledRun)
   \<and> map r_status (processingRuns (sys_db cancelledRun)) = [Cancelled]
   \<and> map r_status (processingRuns (sys_db resumedAfterCancel)) = [Running]
   \<and> map r_status (processingRuns (sys_db finishedAfterCancel)) = [Completed]
   \<and> map d_runId (datasets (sys_db finishedAfterCancel)) = [1]"
  by (simp add: finishedAfterCancel_def resumedAfterCancel_def cancelledRun_def createdRun_def
      example_defs cancelRun_def)

end
